theory Spec2Isabelle
  imports Complex_Main
begin

section \<open>Numbers, constants and pure helpers\<close>

text \<open>
  JavaScript numbers are modelled as mathematical reals: the properties below are about the
  algorithms (comparisons, clamping, the pairwise scan); rounding, NaN and the infinities
  are outside the model.

  The constants are those of \<^verbatim>\<open>APP_CONFIG\<close> in \<^verbatim>\<open>shared/constants/app.ts\<close>.
\<close>

definition FRAME_SKIP_THRESHOLD :: real where
  "FRAME_SKIP_THRESHOLD = 20"

definition DEFAULT_NODE_COUNT :: nat where
  "DEFAULT_NODE_COUNT = 80"

definition MAX_CONNECTION_DISTANCE :: real where
  "MAX_CONNECTION_DISTANCE = 150"

definition CHARACTER_SPACING :: real where
  "CHARACTER_SPACING = 8"

definition MOVEMENT_SPEED :: real where
  "MOVEMENT_SPEED = 2 / 100"

definition MAX_VELOCITY :: real where
  "MAX_VELOCITY = 8 / 10"

definition DIRECTION_CHANGE_PROBABILITY :: real where
  "DIRECTION_CHANGE_PROBABILITY = 2 / 1000"

definition CHARACTER_UPDATE_INTERVAL_MIN :: real where
  "CHARACTER_UPDATE_INTERVAL_MIN = 2000"

definition CHARACTER_UPDATE_INTERVAL_MAX :: real where
  "CHARACTER_UPDATE_INTERVAL_MAX = 5000"

text \<open>\<^verbatim>\<open>clamp(value, min, max) = Math.min(Math.max(value, min), max)\<close>\<close>

definition clamp :: "real \<Rightarrow> real \<Rightarrow> real \<Rightarrow> real" where
  "clamp v lo hi = min (max v lo) hi"

section \<open>Nodes and connections\<close>

text \<open>
  The \<^verbatim>\<open>Node\<close> interface. The optional fields \<^verbatim>\<open>originalVx\<close>, \<^verbatim>\<open>originalVy\<close> are
  options (\<^verbatim>\<open>delete\<close> makes them \<open>None\<close>). The optional flag \<^verbatim>\<open>isDragging\<close> is only ever
  tested for truthiness, so an absent flag and \<^verbatim>\<open>false\<close> are both \<open>False\<close>. The glyph
  is the UTF-16 code unit of the one-character string, the colour the triple that
  \<^verbatim>\<open>rgbToString\<close> prints.
\<close>

record Node =
  x :: real
  y :: real
  vx :: real
  vy :: real
  char :: nat
  color :: "nat \<times> nat \<times> nat"
  lastCharUpdate :: real
  isDragging :: bool
  originalVx :: "real option"
  originalVy :: "real option"

text \<open>
  A \<^verbatim>\<open>Connection\<close> holds references to two node objects. Node objects are allocated once
  (in \<^verbatim>\<open>initializeNodes\<close>) and live in the array \<^verbatim>\<open>this.nodes\<close>, which is never
  reordered, so a reference is modelled as the index of the object in that array.
\<close>

record Connection =
  nodeA :: nat
  nodeB :: nat
  strength :: real

text \<open>\<^verbatim>\<open>distance(point1, point2)\<close> of \<^verbatim>\<open>shared/utils/animation.ts\<close>\<close>

definition distance :: "Node \<Rightarrow> Node \<Rightarrow> real" where
  "distance point1 point2 =
     (let dx = x point2 - x point1;
          dy = y point2 - y point1
      in sqrt (dx * dx + dy * dy))"

text \<open>
  \<^verbatim>\<open>updateConnections\<close>: the list is emptied and rebuilt by the double loop
  \<^verbatim>\<open>for i in [0, n)\<close>, \<^verbatim>\<open>for j in [i + 1, n)\<close>, pushing in loop order. The test
  \<^verbatim>\<open>!nodeA || !nodeB\<close> never fires: both indices are in range and every element is an object.
\<close>

definition connectPair :: "Node list \<Rightarrow> real \<Rightarrow> nat \<Rightarrow> nat \<Rightarrow> Connection list" where
  "connectPair nodes maxConnectionDistance i j =
     (let dist = distance (nodes ! i) (nodes ! j)
      in if dist < maxConnectionDistance
         then [\<lparr>nodeA = i, nodeB = j, strength = 1 - dist / maxConnectionDistance\<rparr>]
         else [])"

definition updateConnections :: "Node list \<Rightarrow> real \<Rightarrow> Connection list" where
  "updateConnections nodes maxConnectionDistance =
     concat (map (\<lambda>i. concat (map (\<lambda>j. connectPair nodes maxConnectionDistance i j)
                                  [i + 1 ..< length nodes]))
                 [0 ..< length nodes])"

section \<open>Randomness and glyphs\<close>

text \<open>
  \<^verbatim>\<open>Math.random()\<close> is an oracle: the \<open>k\<close>-th call of a run returns \<open>rnd k\<close>. Every function
  that draws random numbers takes the oracle and the number of calls made so far and returns
  the new count, so the draws happen in the order of the source. The platform promises
  \<open>0 \<le> rnd k < 1\<close>; theorems that need it assume \<open>unitRandom rnd\<close>.
\<close>

type_synonym random = "nat \<Rightarrow> real"

definition unitRandom :: "random \<Rightarrow> bool" where
  "unitRandom rnd = (\<forall>k. 0 \<le> rnd k \<and> rnd k < 1)"

text \<open>
  The UTF-16 code units of the string \<^verbatim>\<open>NOISE_CHARS\<close>: the letters \<^verbatim>\<open>A-Z\<close>, \<^verbatim>\<open>a-z\<close>, the
  digits, 29 punctuation characters ending with the space, and the Russian capital and
  small letters, each alphabet with its seventh letter (code units 1025 and 1105) in place.
\<close>

definition NOISE_CHARS :: "nat list" where
  "NOISE_CHARS =
     [65 ..< 91] @ [97 ..< 123] @ [48 ..< 58]
     @ [33, 64, 35, 36, 37, 94, 38, 42, 40, 41, 95, 43, 45, 61, 91, 93, 123, 125, 124, 59, 39,
        58, 44, 46, 47, 62, 60, 63, 32]
     @ [1040 ..< 1046] @ [1025] @ [1046 ..< 1072]
     @ [1072 ..< 1078] @ [1105] @ [1078 ..< 1104]"

text \<open>
  \<^verbatim>\<open>randomNoiseChar()\<close>, given its one random draw \<open>r\<close>: an empty alphabet or an index
  outside the string (which makes \<^verbatim>\<open>NOISE_CHARS[...]\<close> undefined) yields \<^verbatim>\<open>'?'\<close>, code unit 63.
\<close>

definition randomNoiseChar :: "real \<Rightarrow> nat" where
  "randomNoiseChar r =
     (if length NOISE_CHARS = 0 then 63
      else let i = \<lfloor>r * real (length NOISE_CHARS)\<rfloor>
           in if 0 \<le> i \<and> nat i < length NOISE_CHARS then NOISE_CHARS ! nat i else 63)"

text \<open>\<^verbatim>\<open>randomRGB()\<close>, given its three draws in order.\<close>

definition randomRGB :: "real \<Rightarrow> real \<Rightarrow> real \<Rightarrow> nat \<times> nat \<times> nat" where
  "randomRGB r1 r2 r3 = (nat \<lfloor>r1 * 256\<rfloor>, nat \<lfloor>r2 * 256\<rfloor>, nat \<lfloor>r3 * 256\<rfloor>)"

text \<open>\<^verbatim>\<open>randomPosition(width, height)\<close> and \<^verbatim>\<open>randomVelocity(maxSpeed)\<close>, given their draws.\<close>

definition randomPosition :: "real \<Rightarrow> real \<Rightarrow> real \<Rightarrow> real \<Rightarrow> real \<times> real" where
  "randomPosition width height r1 r2 = (r1 * width, r2 * height)"

definition randomVelocity :: "real \<Rightarrow> real \<Rightarrow> real \<Rightarrow> real \<times> real" where
  "randomVelocity maxSpeed r1 r2 = ((r1 - 1 / 2) * maxSpeed, (r2 - 1 / 2) * maxSpeed)"

section \<open>The simulation: initialisation, per-frame update, resize\<close>

text \<open>
  \<^verbatim>\<open>canvasWidth\<close> and \<^verbatim>\<open>canvasHeight\<close> stand for
  \<^verbatim>\<open>this.canvas.width / (window.devicePixelRatio || 1)\<close> and its counterpart, which every
  method reads afresh; \<^verbatim>\<open>now\<close> stands for \<^verbatim>\<open>performance.now()\<close>.
\<close>

text \<open>One iteration of the loop of \<^verbatim>\<open>initializeNodes\<close>, and the loop (\<open>count\<close> iterations left).\<close>

definition initializeNode :: "real \<Rightarrow> real \<Rightarrow> random \<Rightarrow> nat \<Rightarrow> Node \<times> nat" where
  "initializeNode canvasWidth canvasHeight rnd k =
     (let position = randomPosition canvasWidth canvasHeight (rnd k) (rnd (k + 1));
          velocity = randomVelocity (1 / 2) (rnd (k + 2)) (rnd (k + 3))
      in (\<lparr>x = fst position, y = snd position, vx = fst velocity, vy = snd velocity,
            char = randomNoiseChar (rnd (k + 4)),
            color = randomRGB (rnd (k + 5)) (rnd (k + 6)) (rnd (k + 7)),
            lastCharUpdate = 0, isDragging = False,
            originalVx = None, originalVy = None\<rparr>, k + 8))"

fun initializeNodes :: "real \<Rightarrow> real \<Rightarrow> random \<Rightarrow> nat \<Rightarrow> nat \<Rightarrow> Node list \<times> nat" where
  "initializeNodes canvasWidth canvasHeight rnd k 0 = ([], k)"
| "initializeNodes canvasWidth canvasHeight rnd k (Suc count) =
     (let (node, k1) = initializeNode canvasWidth canvasHeight rnd k;
          (rest, k2) = initializeNodes canvasWidth canvasHeight rnd k1 count
      in (node # rest, k2))"

text \<open>
  The body of the \<^verbatim>\<open>forEach\<close> of \<^verbatim>\<open>updateNodes\<close>, in the four stages the source comments
  name: update position, bounce off edges, randomly change direction (these three only for
  a node that is not dragged), update character periodically.
\<close>

definition updatePosition :: "real \<Rightarrow> Node \<Rightarrow> Node" where
  "updatePosition deltaTime node =
     (let node = node\<lparr>x := x node + vx node * deltaTime * MOVEMENT_SPEED\<rparr>
      in node\<lparr>y := y node + vy node * deltaTime * MOVEMENT_SPEED\<rparr>)"

definition bounceOffEdges :: "real \<Rightarrow> real \<Rightarrow> Node \<Rightarrow> Node" where
  "bounceOffEdges canvasWidth canvasHeight node =
     (let node = (if x node \<le> 0 \<or> x node \<ge> canvasWidth
                  then node\<lparr>vx := vx node * (- 1), x := clamp (x node) 0 canvasWidth\<rparr>
                  else node)
      in if y node \<le> 0 \<or> y node \<ge> canvasHeight
         then node\<lparr>vy := vy node * (- 1), y := clamp (y node) 0 canvasHeight\<rparr>
         else node)"

definition changeDirection :: "random \<Rightarrow> nat \<Rightarrow> Node \<Rightarrow> Node \<times> nat" where
  "changeDirection rnd k node =
     (if rnd k < DIRECTION_CHANGE_PROBABILITY
      then let node = node\<lparr>vx := vx node + (rnd (k + 1) - 1 / 2) * (1 / 10)\<rparr>;
               node = node\<lparr>vy := vy node + (rnd (k + 2) - 1 / 2) * (1 / 10)\<rparr>;
               maxVel = MAX_VELOCITY;
               node = node\<lparr>vx := clamp (vx node) (- maxVel) maxVel\<rparr>;
               node = node\<lparr>vy := clamp (vy node) (- maxVel) maxVel\<rparr>
           in (node, k + 3)
      else (node, k + 1))"

definition updateCharacter :: "real \<Rightarrow> random \<Rightarrow> nat \<Rightarrow> Node \<Rightarrow> Node \<times> nat" where
  "updateCharacter now rnd k node =
     (if now - lastCharUpdate node
           > CHARACTER_UPDATE_INTERVAL_MIN
             + rnd k * (CHARACTER_UPDATE_INTERVAL_MAX - CHARACTER_UPDATE_INTERVAL_MIN)
      then (node\<lparr>char := randomNoiseChar (rnd (k + 1)),
                  color := randomRGB (rnd (k + 2)) (rnd (k + 3)) (rnd (k + 4)),
                  lastCharUpdate := now\<rparr>, k + 5)
      else (node, k + 1))"

definition updateNode ::
  "real \<Rightarrow> real \<Rightarrow> real \<Rightarrow> real \<Rightarrow> random \<Rightarrow> nat \<Rightarrow> Node \<Rightarrow> Node \<times> nat" where
  "updateNode canvasWidth canvasHeight deltaTime now rnd k node =
     (let (node, k) =
            (if \<not> isDragging node
             then changeDirection rnd k
                    (bounceOffEdges canvasWidth canvasHeight (updatePosition deltaTime node))
             else (node, k))
      in updateCharacter now rnd k node)"

fun updateNodes ::
  "real \<Rightarrow> real \<Rightarrow> real \<Rightarrow> real \<Rightarrow> random \<Rightarrow> nat \<Rightarrow> Node list \<Rightarrow> Node list \<times> nat" where
  "updateNodes canvasWidth canvasHeight deltaTime now rnd k [] = ([], k)"
| "updateNodes canvasWidth canvasHeight deltaTime now rnd k (node # nodes) =
     (let (node', k1) = updateNode canvasWidth canvasHeight deltaTime now rnd k node;
          (nodes', k2) = updateNodes canvasWidth canvasHeight deltaTime now rnd k1 nodes
      in (node' # nodes', k2))"

text \<open>\<^verbatim>\<open>repositionNodes\<close>, run by the throttled window-resize handler.\<close>

definition repositionNodes :: "real \<Rightarrow> real \<Rightarrow> Node list \<Rightarrow> Node list" where
  "repositionNodes canvasWidth canvasHeight nodes =
     map (\<lambda>node. let node = node\<lparr>x := clamp (x node) 0 (canvasWidth - 50)\<rparr>
                  in node\<lparr>y := clamp (y node) 0 (canvasHeight - 50)\<rparr>) nodes"

text \<open>The position and velocity bounds the properties speak of.\<close>

definition withinCanvas :: "real \<Rightarrow> real \<Rightarrow> Node \<Rightarrow> bool" where
  "withinCanvas canvasWidth canvasHeight node =
     (0 \<le> x node \<and> x node \<le> canvasWidth \<and> 0 \<le> y node \<and> y node \<le> canvasHeight)"

definition velocityBounded :: "Node \<Rightarrow> bool" where
  "velocityBounded node = (\<bar>vx node\<bar> \<le> MAX_VELOCITY \<and> \<bar>vy node\<bar> \<le> MAX_VELOCITY)"

section \<open>The standalone copy of the animation\<close>

text \<open>
  \<^verbatim>\<open>animations/NodeNetworkAnimation.ts\<close> is a second, older copy of the animation with no
  dragging. Its \<^verbatim>\<open>updateConnections\<close>, \<^verbatim>\<open>drawGradientConnection\<close> and scroll handler are
  the ones modelled here, with the constants written as literals. It differs in its own
  distance function, in writing the clamps of \<^verbatim>\<open>updateNodes\<close> as
  \<^verbatim>\<open>Math.max(lo, Math.min(hi, v))\<close>, and in \<^verbatim>\<open>repositionNodes\<close>, which moves only the
  nodes beyond the right or bottom edge. The position and character stages of its
  \<^verbatim>\<open>updateNodes\<close> are those of \<open>updatePosition\<close> and \<open>updateCharacter\<close>.
\<close>

definition getDistance :: "Node \<Rightarrow> Node \<Rightarrow> real" where
  "getDistance a b = sqrt ((x a - x b)\<^sup>2 + (y a - y b)\<^sup>2)"

definition bounceOffEdgesStandalone :: "real \<Rightarrow> real \<Rightarrow> Node \<Rightarrow> Node" where
  "bounceOffEdgesStandalone canvasWidth canvasHeight node =
     (let node = (if x node \<le> 0 \<or> x node \<ge> canvasWidth
                  then node\<lparr>vx := vx node * (- 1), x := max 0 (min canvasWidth (x node))\<rparr>
                  else node)
      in if y node \<le> 0 \<or> y node \<ge> canvasHeight
         then node\<lparr>vy := vy node * (- 1), y := max 0 (min canvasHeight (y node))\<rparr>
         else node)"

definition changeDirectionStandalone :: "random \<Rightarrow> nat \<Rightarrow> Node \<Rightarrow> Node \<times> nat" where
  "changeDirectionStandalone rnd k node =
     (if rnd k < 2 / 1000
      then let node = node\<lparr>vx := vx node + (rnd (k + 1) - 1 / 2) * (1 / 10)\<rparr>;
               node = node\<lparr>vy := vy node + (rnd (k + 2) - 1 / 2) * (1 / 10)\<rparr>;
               maxVel = 8 / 10;
               node = node\<lparr>vx := max (- maxVel) (min maxVel (vx node))\<rparr>;
               node = node\<lparr>vy := max (- maxVel) (min maxVel (vy node))\<rparr>
           in (node, k + 3)
      else (node, k + 1))"

definition updateNodeStandalone ::
  "real \<Rightarrow> real \<Rightarrow> real \<Rightarrow> real \<Rightarrow> random \<Rightarrow> nat \<Rightarrow> Node \<Rightarrow> Node \<times> nat" where
  "updateNodeStandalone canvasWidth canvasHeight deltaTime now rnd k node =
     (let (node, k) = changeDirectionStandalone rnd k
                        (bounceOffEdgesStandalone canvasWidth canvasHeight
                           (updatePosition deltaTime node))
      in updateCharacter now rnd k node)"

definition repositionNodesStandalone :: "real \<Rightarrow> real \<Rightarrow> Node list \<Rightarrow> Node list" where
  "repositionNodesStandalone canvasWidth canvasHeight nodes =
     map (\<lambda>node. let node = (if x node > canvasWidth then node\<lparr>x := canvasWidth - 50\<rparr>
                               else node)
                  in if y node > canvasHeight then node\<lparr>y := canvasHeight - 50\<rparr> else node)
         nodes"

section \<open>Pointer interaction and scroll throttling\<close>

text \<open>
  The fields of \<^verbatim>\<open>NodeNetworkAnimation\<close> that the simulation, the input handlers and the
  scroll handler use (\<^verbatim>\<open>maxConnectionDistance\<close> is fixed by the constructor).
  \<^verbatim>\<open>draggedNode\<close> is a reference to a node object (an index into \<^verbatim>\<open>nodes\<close>) or \<^verbatim>\<open>null\<close>; \<^verbatim>\<open>cursor\<close> is \<^verbatim>\<open>canvas.style.cursor\<close>. From here on
  \<open>isDragging\<close> is the flag of the animation object and \<open>Node.isDragging\<close> the flag of a node.
\<close>

record NodeNetworkAnimation =
  nodes :: "Node list"
  connections :: "Connection list"
  maxConnectionDistance :: real
  lastUpdateTime :: real
  isVisible :: bool
  frameSkip :: nat
  frameSkipMax :: nat
  lastScrollY :: real
  scrollVelocity :: real
  isDragging :: bool
  draggedNode :: "nat option"
  mousePosition :: "real \<times> real"
  mouseOffset :: "real \<times> real"
  cursor :: string

text \<open>
  \<^verbatim>\<open>findNodeAtPosition\<close>: the first node in list order within the tolerance of 25 pixels;
  \<open>findNodeFrom i\<close> scans a suffix of the list whose first element has index \<open>i\<close>.
\<close>

fun findNodeFrom :: "nat \<Rightarrow> Node list \<Rightarrow> real \<Rightarrow> real \<Rightarrow> nat option" where
  "findNodeFrom i [] px py = None"
| "findNodeFrom i (node # rest) px py =
     (let tolerance = 25;
          dist = sqrt ((px - x node)\<^sup>2 + (py - y node)\<^sup>2)
      in if dist \<le> tolerance then Some i else findNodeFrom (Suc i) rest px py)"

definition findNodeAtPosition :: "Node list \<Rightarrow> real \<Rightarrow> real \<Rightarrow> nat option" where
  "findNodeAtPosition ns px py = findNodeFrom 0 ns px py"

text \<open>
  The handlers take the pointer position relative to the canvas, that is
  \<^verbatim>\<open>clientX - rect.left\<close> and \<^verbatim>\<open>clientY - rect.top\<close>. \<^verbatim>\<open>event.preventDefault()\<close> acts on
  the browser only and is left out.
\<close>

definition handleMouseDown :: "NodeNetworkAnimation \<Rightarrow> real \<Rightarrow> real \<Rightarrow> NodeNetworkAnimation" where
  "handleMouseDown s px py =
     (case findNodeAtPosition (nodes s) px py of
        None \<Rightarrow> s
      | Some i \<Rightarrow>
          let clickedNode = nodes s ! i;
              s = s\<lparr>isDragging := True, draggedNode := Some i,
                    mouseOffset := (px - x clickedNode, py - y clickedNode)\<rparr>;
              clickedNode = clickedNode\<lparr>originalVx := Some (vx clickedNode),
                                        originalVy := Some (vy clickedNode),
                                        Node.isDragging := True\<rparr>;
              clickedNode = clickedNode\<lparr>vx := 0, vy := 0\<rparr>
          in s\<lparr>nodes := (nodes s)[i := clickedNode], cursor := ''grabbing''\<rparr>)"

definition handleMouseMove ::
  "NodeNetworkAnimation \<Rightarrow> real \<Rightarrow> real \<Rightarrow> real \<Rightarrow> real \<Rightarrow> NodeNetworkAnimation" where
  "handleMouseMove s canvasWidth canvasHeight px py =
     (let s = s\<lparr>mousePosition := (px, py)\<rparr>
      in case (if isDragging s then draggedNode s else None) of
           Some i \<Rightarrow>
             let node = nodes s ! i;
                 node = node\<lparr>x := px - fst (mouseOffset s), y := py - snd (mouseOffset s)\<rparr>;
                 node = node\<lparr>x := clamp (x node) 0 canvasWidth\<rparr>;
                 node = node\<lparr>y := clamp (y node) 0 canvasHeight\<rparr>
             in s\<lparr>nodes := (nodes s)[i := node]\<rparr>
         | None \<Rightarrow>
             let hoveredNode = findNodeAtPosition (nodes s) px py
             in s\<lparr>cursor := (if hoveredNode \<noteq> None then ''grab'' else ''default'')\<rparr>)"

text \<open>
  \<^verbatim>\<open>original || (Math.random() - 0.5) * 0.5\<close>: the saved component when it is present and
  not zero, else a fresh random one; the random number is drawn only in the second case.
\<close>

definition restoreOrRandom :: "real option \<Rightarrow> random \<Rightarrow> nat \<Rightarrow> real \<times> nat" where
  "restoreOrRandom original rnd k =
     (case original of
        Some v \<Rightarrow> if v \<noteq> 0 then (v, k) else ((rnd k - 1 / 2) * (1 / 2), k + 1)
      | None \<Rightarrow> ((rnd k - 1 / 2) * (1 / 2), k + 1))"

text \<open>The guarded block that \<^verbatim>\<open>handleMouseUp\<close> and \<^verbatim>\<open>handleTouchEnd\<close> both start with.\<close>

definition releaseDraggedNode ::
  "NodeNetworkAnimation \<Rightarrow> random \<Rightarrow> nat \<Rightarrow> NodeNetworkAnimation \<times> nat" where
  "releaseDraggedNode s rnd k =
     (case (if isDragging s then draggedNode s else None) of
        None \<Rightarrow> (s, k)
      | Some i \<Rightarrow>
          let node = nodes s ! i;
              (newVx, k1) = restoreOrRandom (originalVx node) rnd k;
              (newVy, k2) = restoreOrRandom (originalVy node) rnd k1;
              node = node\<lparr>vx := newVx, vy := newVy\<rparr>;
              node = node\<lparr>Node.isDragging := False, originalVx := None, originalVy := None\<rparr>
          in (s\<lparr>nodes := (nodes s)[i := node]\<rparr>, k2))"

text \<open>\<^verbatim>\<open>handleMouseUp\<close> is registered for both \<^verbatim>\<open>mouseup\<close> and \<^verbatim>\<open>mouseleave\<close>.\<close>

definition handleMouseUp ::
  "NodeNetworkAnimation \<Rightarrow> random \<Rightarrow> nat \<Rightarrow> NodeNetworkAnimation \<times> nat" where
  "handleMouseUp s rnd k =
     (let (s, k) = releaseDraggedNode s rnd k
      in (s\<lparr>isDragging := False, draggedNode := None, cursor := ''default''\<rparr>, k))"

text \<open>The touch handlers get the list \<^verbatim>\<open>event.touches\<close>, as canvas-relative positions.\<close>

definition handleTouchStart ::
  "NodeNetworkAnimation \<Rightarrow> (real \<times> real) list \<Rightarrow> NodeNetworkAnimation" where
  "handleTouchStart s touches =
     (case touches of
        [(px, py)] \<Rightarrow>
          (case findNodeAtPosition (nodes s) px py of
             None \<Rightarrow> s
           | Some i \<Rightarrow>
               let clickedNode = nodes s ! i;
                   s = s\<lparr>isDragging := True, draggedNode := Some i,
                         mouseOffset := (px - x clickedNode, py - y clickedNode)\<rparr>;
                   clickedNode = clickedNode\<lparr>originalVx := Some (vx clickedNode),
                                             originalVy := Some (vy clickedNode),
                                             Node.isDragging := True\<rparr>;
                   clickedNode = clickedNode\<lparr>vx := 0, vy := 0\<rparr>
               in s\<lparr>nodes := (nodes s)[i := clickedNode]\<rparr>)
      | _ \<Rightarrow> s)"

definition handleTouchMove ::
  "NodeNetworkAnimation \<Rightarrow> real \<Rightarrow> real \<Rightarrow> (real \<times> real) list \<Rightarrow> NodeNetworkAnimation" where
  "handleTouchMove s canvasWidth canvasHeight touches =
     (case touches of
        [(px, py)] \<Rightarrow>
          (case (if isDragging s then draggedNode s else None) of
             Some i \<Rightarrow>
               let node = nodes s ! i;
                   node = node\<lparr>x := px - fst (mouseOffset s), y := py - snd (mouseOffset s)\<rparr>;
                   node = node\<lparr>x := clamp (x node) 0 canvasWidth\<rparr>;
                   node = node\<lparr>y := clamp (y node) 0 canvasHeight\<rparr>
               in s\<lparr>nodes := (nodes s)[i := node]\<rparr>
           | None \<Rightarrow> s)
      | _ \<Rightarrow> s)"

definition handleTouchEnd ::
  "NodeNetworkAnimation \<Rightarrow> random \<Rightarrow> nat \<Rightarrow> NodeNetworkAnimation \<times> nat" where
  "handleTouchEnd s rnd k =
     (let (s, k) = releaseDraggedNode s rnd k
      in (s\<lparr>isDragging := False, draggedNode := None\<rparr>, k))"

text \<open>\<^verbatim>\<open>draggedNodeCount\<close> of \<^verbatim>\<open>getMetrics\<close>.\<close>

definition draggedNodeCount :: "NodeNetworkAnimation \<Rightarrow> nat" where
  "draggedNodeCount s = length (filter Node.isDragging (nodes s))"

text \<open>The throttled scroll handler, given \<^verbatim>\<open>window.scrollY\<close>.\<close>

definition handleScroll :: "NodeNetworkAnimation \<Rightarrow> real \<Rightarrow> NodeNetworkAnimation" where
  "handleScroll s currentScrollY =
     (let s = s\<lparr>scrollVelocity := \<bar>currentScrollY - lastScrollY s\<bar>\<rparr>;
          s = s\<lparr>lastScrollY := currentScrollY\<rparr>
      in s\<lparr>frameSkipMax := (if scrollVelocity s > FRAME_SKIP_THRESHOLD then 4
                             else if scrollVelocity s > 5 then 2 else 1)\<rparr>)"

text \<open>
  \<^verbatim>\<open>animate(currentTime)\<close> without its drawing and without re-arming the frame request:
  the visibility guard (\<open>active\<close> stands for \<^verbatim>\<open>this.isActive()\<close>), the frame-skip counter,
  the time delta, then \<^verbatim>\<open>updateNodes\<close> and \<^verbatim>\<open>updateConnections\<close>.
\<close>

definition animate ::
  "bool \<Rightarrow> real \<Rightarrow> real \<Rightarrow> real \<Rightarrow> real \<Rightarrow> random \<Rightarrow> nat \<Rightarrow> NodeNetworkAnimation
     \<Rightarrow> NodeNetworkAnimation \<times> nat" where
  "animate active canvasWidth canvasHeight currentTime now rnd k s =
     (if \<not> isVisible s \<or> \<not> active then (s, k)
      else let s = s\<lparr>frameSkip := frameSkip s + 1\<rparr>
           in if frameSkip s < frameSkipMax s then (s, k)
              else let s = s\<lparr>frameSkip := 0\<rparr>;
                       deltaTime = currentTime - lastUpdateTime s;
                       s = s\<lparr>lastUpdateTime := currentTime\<rparr>;
                       (ns, k1) = updateNodes canvasWidth canvasHeight deltaTime now rnd k
                                    (nodes s);
                       s = s\<lparr>nodes := ns\<rparr>;
                       s = s\<lparr>connections :=
                               updateConnections (nodes s) (maxConnectionDistance s)\<rparr>
                   in (s, k1))"

section \<open>The event loop\<close>

text \<open>
  Everything runs on one thread: the browser calls one registered listener or one frame
  callback at a time, each to completion. A \<open>Page\<close> is the animation object together with
  the canvas size in CSS pixels and the number of random draws made so far; \<open>dispatch\<close> runs
  the listener that \<^verbatim>\<open>setupEventListeners\<close> and \<^verbatim>\<open>setupMouseEventListeners\<close> registered for
  an event. \<open>WindowResize w h\<close> is a window resize after which the canvas measures \<open>w\<close> by
  \<open>h\<close>; \<open>CanvasResize w h\<close> is the resize observer reporting that size, which only resizes the
  backing store; \<open>VisibilityChange hidden\<close> carries \<^verbatim>\<open>document.hidden\<close>. \<open>Frame currentTime now\<close> is
  a frame callback reaching \<^verbatim>\<open>animate\<close> while the component is active. Requesting and
  cancelling frames is the business of the frame manager, modelled further down.
\<close>

datatype event =
    MouseDown real real
  | MouseMove real real
  | MouseUp
  | MouseLeave
  | TouchStart "(real \<times> real) list"
  | TouchMove "(real \<times> real) list"
  | TouchEnd
  | WindowResize real real
  | CanvasResize real real
  | VisibilityChange bool
  | Scroll real
  | Frame real real

record Page =
  animation :: NodeNetworkAnimation
  canvasWidth :: real
  canvasHeight :: real
  randomCalls :: nat

fun dispatch :: "random \<Rightarrow> event \<Rightarrow> Page \<Rightarrow> Page" where
  "dispatch rnd (MouseDown px py) p = p\<lparr>animation := handleMouseDown (animation p) px py\<rparr>"
| "dispatch rnd (MouseMove px py) p =
     p\<lparr>animation := handleMouseMove (animation p) (canvasWidth p) (canvasHeight p) px py\<rparr>"
| "dispatch rnd MouseUp p =
     (let (s, k) = handleMouseUp (animation p) rnd (randomCalls p)
      in p\<lparr>animation := s, randomCalls := k\<rparr>)"
| "dispatch rnd MouseLeave p =
     (let (s, k) = handleMouseUp (animation p) rnd (randomCalls p)
      in p\<lparr>animation := s, randomCalls := k\<rparr>)"
| "dispatch rnd (TouchStart touches) p = p\<lparr>animation := handleTouchStart (animation p) touches\<rparr>"
| "dispatch rnd (TouchMove touches) p =
     p\<lparr>animation := handleTouchMove (animation p) (canvasWidth p) (canvasHeight p) touches\<rparr>"
| "dispatch rnd TouchEnd p =
     (let (s, k) = handleTouchEnd (animation p) rnd (randomCalls p)
      in p\<lparr>animation := s, randomCalls := k\<rparr>)"
| "dispatch rnd (WindowResize w h) p =
     (let p = p\<lparr>canvasWidth := w, canvasHeight := h\<rparr>
      in p\<lparr>animation := (animation p)\<lparr>nodes :=
             repositionNodes (canvasWidth p) (canvasHeight p) (nodes (animation p))\<rparr>\<rparr>)"
| "dispatch rnd (CanvasResize w h) p = p\<lparr>canvasWidth := w, canvasHeight := h\<rparr>"
| "dispatch rnd (VisibilityChange hidden) p =
     p\<lparr>animation := (animation p)\<lparr>isVisible := \<not> hidden\<rparr>\<rparr>"
| "dispatch rnd (Scroll currentScrollY) p =
     p\<lparr>animation := handleScroll (animation p) currentScrollY\<rparr>"
| "dispatch rnd (Frame currentTime now) p =
     (let (s, k) = animate True (canvasWidth p) (canvasHeight p) currentTime now rnd
                     (randomCalls p) (animation p)
      in p\<lparr>animation := s, randomCalls := k\<rparr>)"

fun run :: "random \<Rightarrow> event list \<Rightarrow> Page \<Rightarrow> Page" where
  "run rnd [] p = p"
| "run rnd (e # es) p = run rnd es (dispatch rnd e p)"

text \<open>
  The saved velocity of a node obeys the velocity limit, and the two bounds together.
\<close>

definition savedVelocityBounded :: "Node \<Rightarrow> bool" where
  "savedVelocityBounded node =
     ((case originalVx node of None \<Rightarrow> True | Some v \<Rightarrow> \<bar>v\<bar> \<le> MAX_VELOCITY) \<and>
      (case originalVy node of None \<Rightarrow> True | Some v \<Rightarrow> \<bar>v\<bar> \<le> MAX_VELOCITY))"

definition velocityInvariant :: "Node \<Rightarrow> bool" where
  "velocityInvariant node = (velocityBounded node \<and> savedVelocityBounded node)"

text \<open>
  The state in which the page starts: the field initialisers of the class, the constructor's
  configuration, and \<^verbatim>\<open>onInit\<close>, which fills the node list.
\<close>

definition loadPage :: "real \<Rightarrow> real \<Rightarrow> nat \<Rightarrow> real \<Rightarrow> random \<Rightarrow> Page" where
  "loadPage w h nodeCount maxDistance rnd =
     (let (ns, k) = initializeNodes w h rnd 0 nodeCount
      in \<lparr>animation =
            \<lparr>nodes = ns, connections = [], maxConnectionDistance = maxDistance,
             lastUpdateTime = 0, isVisible = True, frameSkip = 0, frameSkipMax = 1,
             lastScrollY = 0, scrollVelocity = 0, isDragging = False, draggedNode = None,
             mousePosition = (0, 0), mouseOffset = (0, 0), cursor = []\<rparr>,
          canvasWidth = w, canvasHeight = h, randomCalls = k\<rparr>)"

section \<open>Drawing a connection\<close>

text \<open>
  One call of \<^verbatim>\<open>context.fillText\<close>: the glyph, the position, and the fill style
  \<^verbatim>\<open>rgba(gray, gray, gray, alpha)\<close> and font in force when it is drawn.
\<close>

record FillText =
  glyph :: nat
  atX :: real
  atY :: real
  fillStyle :: "int \<times> int \<times> int \<times> real"
  font :: string

text \<open>
  \<^verbatim>\<open>renderConnection\<close> returns the \<^verbatim>\<open>fillText\<close> calls it makes, in order. The loop
  \<^verbatim>\<open>for (let i = 1; i < steps; i++)\<close> runs over \<open>[1 .. steps - 1]\<close> and draws one random
  number per iteration (for the glyph). \<open>connectionFont\<close> stands for the result of
  \<^verbatim>\<open>getConnectionFontSize()\<close>, which reads the style sheet.
\<close>

definition renderConnection ::
  "string \<Rightarrow> Node list \<Rightarrow> random \<Rightarrow> nat \<Rightarrow> Connection \<Rightarrow> FillText list \<times> nat" where
  "renderConnection connectionFont ns rnd k connection =
     (let a = ns ! nodeA connection;
          b = ns ! nodeB connection;
          str = strength connection;
          dist = distance a b;
          steps = \<lfloor>dist / CHARACTER_SPACING\<rfloor>
      in if steps < 2 then ([], k)
         else let dx = (x b - x a) / real_of_int steps;
                  dy = (y b - y a) / real_of_int steps
              in (map (\<lambda>i. let progress = real_of_int i / real_of_int steps;
                                px = x a + dx * real_of_int i;
                                py = y a + dy * real_of_int i;
                                grayValue = \<lfloor>80 + (str * progress * (1 - progress) * 4) * 100\<rfloor>;
                                alpha = str * (4 / 10)
                            in \<lparr>glyph = randomNoiseChar (rnd (k + nat (i - 1))),
                                atX = px, atY = py,
                                fillStyle = (grayValue, grayValue, grayValue, alpha),
                                font = connectionFont\<rparr>)
                      [1 .. steps - 1],
                  k + nat (steps - 1)))"

text \<open>The step count \<^verbatim>\<open>Math.floor(dist / CHARACTER_SPACING)\<close> of a connection.\<close>

definition connectionSteps :: "Node list \<Rightarrow> Connection \<Rightarrow> int" where
  "connectionSteps ns connection =
     \<lfloor>distance (ns ! nodeA connection) (ns ! nodeB connection) / CHARACTER_SPACING\<rfloor>"

section \<open>The animation frame manager\<close>

text \<open>
  \<^verbatim>\<open>AnimationFrameManager\<close> sits between its user and the browser's frame requests. A
  \<open>FrameState\<close> holds the manager's two fields, the browser's list of animation frame
  callbacks with its handle counter, and a log of the user callbacks that have run (with
  the timestamp passed to them).

  A user callback is named by a number. What it does when it runs, as far as the manager
  is concerned, is the list of manager calls it makes: \<open>program callback timestamp\<close>. A
  callback that re-arms itself, as \<^verbatim>\<open>startAnimation\<close> does, is one whose list holds
  \<open>RequestFrame\<close> of its own number.
\<close>

datatype call = RequestFrame nat | CancelFrame nat | CancelAllFrames | Destroy

type_synonym behaviour = "nat \<Rightarrow> real \<Rightarrow> call list"

record FrameState =
  activeAnimations :: "nat set"
  isDestroyed :: bool
  frameCallbacks :: "(nat \<times> nat) list"
  lastHandle :: nat
  fired :: "(nat \<times> real) list"

text \<open>
  The browser: \<^verbatim>\<open>requestAnimationFrame\<close> appends the callback under a fresh handle, which is
  never 0; \<^verbatim>\<open>cancelAnimationFrame\<close> removes the entry with the handle, if any. Every entry
  registered through the manager is the closure of \<^verbatim>\<open>requestFrame\<close>, so an entry is the pair
  of the handle and the user callback the closure captured. Frame requests that other
  code makes directly are not in the list: the manager never learns their handles.
\<close>

definition requestAnimationFrame :: "FrameState \<Rightarrow> nat \<Rightarrow> FrameState \<times> nat" where
  "requestAnimationFrame w callback =
     (let handle = lastHandle w + 1
      in (w\<lparr>lastHandle := handle, frameCallbacks := frameCallbacks w @ [(handle, callback)]\<rparr>,
          handle))"

definition cancelAnimationFrame :: "FrameState \<Rightarrow> nat \<Rightarrow> FrameState" where
  "cancelAnimationFrame w handle =
     w\<lparr>frameCallbacks := filter (\<lambda>entry. fst entry \<noteq> handle) (frameCallbacks w)\<rparr>"

text \<open>The methods of the manager.\<close>

definition requestFrame :: "FrameState \<Rightarrow> nat \<Rightarrow> FrameState \<times> nat" where
  "requestFrame w callback =
     (if isDestroyed w then (w, 0)
      else let (w, frameId) = requestAnimationFrame w callback
           in (w\<lparr>activeAnimations := insert frameId (activeAnimations w)\<rparr>, frameId))"

definition cancelFrame :: "FrameState \<Rightarrow> nat \<Rightarrow> FrameState" where
  "cancelFrame w frameId =
     (let w = cancelAnimationFrame w frameId
      in w\<lparr>activeAnimations := activeAnimations w - {frameId}\<rparr>)"

definition cancelAllFrames :: "FrameState \<Rightarrow> FrameState" where
  "cancelAllFrames w =
     (let w = w\<lparr>frameCallbacks :=
                  filter (\<lambda>entry. fst entry \<notin> activeAnimations w) (frameCallbacks w)\<rparr>
      in w\<lparr>activeAnimations := {}\<rparr>)"

definition getActiveCount :: "FrameState \<Rightarrow> nat" where
  "getActiveCount w = card (activeAnimations w)"

definition destroy :: "FrameState \<Rightarrow> FrameState" where
  "destroy w = cancelAllFrames (w\<lparr>isDestroyed := True\<rparr>)"

text \<open>A manager call made by a callback or by the owner of the manager.\<close>

fun perform :: "call \<Rightarrow> FrameState \<Rightarrow> FrameState" where
  "perform (RequestFrame callback) w = fst (requestFrame w callback)"
| "perform (CancelFrame frameId) w = cancelFrame w frameId"
| "perform CancelAllFrames w = cancelAllFrames w"
| "perform Destroy w = destroy w"

text \<open>
  The closure that \<^verbatim>\<open>requestFrame\<close> hands to the browser: it forgets its handle and calls the
  user callback unless the manager has been destroyed.
\<close>

definition frameWrapper :: "behaviour \<Rightarrow> nat \<Rightarrow> nat \<Rightarrow> real \<Rightarrow> FrameState \<Rightarrow> FrameState" where
  "frameWrapper program frameId callback timestamp w =
     (let w = w\<lparr>activeAnimations := activeAnimations w - {frameId}\<rparr>
      in if \<not> isDestroyed w
         then fold perform (program callback timestamp)
                (w\<lparr>fired := fired w @ [(callback, timestamp)]\<rparr>)
         else w)"

text \<open>
  The browser running the animation frame callbacks of one frame: it goes through the
  handles present when the frame starts, and runs (and removes) each one that is still in
  the list when its turn comes.
\<close>

fun runCallbacks :: "behaviour \<Rightarrow> real \<Rightarrow> (nat \<times> nat) list \<Rightarrow> FrameState \<Rightarrow> FrameState" where
  "runCallbacks program timestamp [] w = w"
| "runCallbacks program timestamp ((handle, callback) # rest) w =
     runCallbacks program timestamp rest
       (if handle \<in> fst ` set (frameCallbacks w)
        then frameWrapper program handle callback timestamp (cancelAnimationFrame w handle)
        else w)"

datatype frameEvent = Call call | AnimationFrame real

fun frameStep :: "behaviour \<Rightarrow> frameEvent \<Rightarrow> FrameState \<Rightarrow> FrameState" where
  "frameStep program (Call c) w = perform c w"
| "frameStep program (AnimationFrame timestamp) w =
     runCallbacks program timestamp (frameCallbacks w) w"

text \<open>A manager as constructed, with nothing requested from the browser yet.\<close>

definition newManager :: FrameState where
  "newManager = \<lparr>activeAnimations = {}, isDestroyed = False, frameCallbacks = [],
                 lastHandle = 0, fired = []\<rparr>"

text \<open>
  Every handle the browser holds is one the manager tracks; and a manager that is destroyed
  with nothing left in the browser's list.
\<close>

definition tracked :: "FrameState \<Rightarrow> bool" where
  "tracked w = (fst ` set (frameCallbacks w) \<subseteq> activeAnimations w)"

definition quiet :: "FrameState \<Rightarrow> bool" where
  "quiet w = (isDestroyed w \<and> frameCallbacks w = [])"

section \<open>Abbreviations used in the proofs\<close>

text \<open>
  What a press handler writes into the picked node, what a release handler writes into
  the dragged node, and the node that the guard \<^verbatim>\<open>this.isDragging && this.draggedNode\<close>
  lets through.
\<close>

definition pressed :: "Node \<Rightarrow> Node" where
  "pressed node = node\<lparr>originalVx := Some (vx node), originalVy := Some (vy node),
                         Node.isDragging := True, vx := 0, vy := 0\<rparr>"

definition released :: "random \<Rightarrow> nat \<Rightarrow> Node \<Rightarrow> Node" where
  "released rnd k node =
     node\<lparr>vx := fst (restoreOrRandom (originalVx node) rnd k),
          vy := fst (restoreOrRandom (originalVy node) rnd
                       (snd (restoreOrRandom (originalVx node) rnd k))),
          Node.isDragging := False, originalVx := None, originalVy := None\<rparr>"

definition dragTarget :: "NodeNetworkAnimation \<Rightarrow> nat option" where
  "dragTarget s = (if isDragging s then draggedNode s else None)"

text \<open>
  The events between a press and a release that leave the pointer and the canvas alone: a
  frame and a scroll sample. The fields of a node that a drag reads or writes. A drag of
  node \<open>i\<close> in progress, started when the node was \<open>node\<close>.
\<close>

fun tick :: "event \<Rightarrow> bool" where
  "tick (Frame currentTime now) = True"
| "tick (Scroll currentScrollY) = True"
| "tick e = False"

definition motion :: "Node \<Rightarrow> real \<times> real \<times> real \<times> real \<times> bool \<times> real option \<times> real option" where
  "motion node = (x node, y node, vx node, vy node, Node.isDragging node,
                  originalVx node, originalVy node)"

definition holds :: "nat \<Rightarrow> Node \<Rightarrow> NodeNetworkAnimation \<Rightarrow> bool" where
  "holds i node s = (dragTarget s = Some i \<and> i < length (nodes s)
                      \<and> motion (nodes s ! i) = motion (pressed node))"

section \<open>Concrete inputs\<close>

text \<open>Inputs at which the properties below are evaluated.\<close>

definition nodeAt :: "real \<Rightarrow> real \<Rightarrow> real \<Rightarrow> real \<Rightarrow> Node" where
  "nodeAt px py pvx pvy =
     \<lparr>x = px, y = py, vx = pvx, vy = pvy, char = 65, color = (0, 0, 0), lastCharUpdate = 0,
      isDragging = False, originalVx = None, originalVy = None\<rparr>"

definition idleAnimation :: "Node list \<Rightarrow> NodeNetworkAnimation" where
  "idleAnimation ns =
     \<lparr>nodes = ns, connections = [], maxConnectionDistance = 150, lastUpdateTime = 0, isVisible = True, frameSkip = 0,
      frameSkipMax = 1, lastScrollY = 0, scrollVelocity = 0, isDragging = False,
      draggedNode = None, mousePosition = (0, 0), mouseOffset = (0, 0), cursor = []\<rparr>"

definition halfRandom :: random where
  "halfRandom k = 1 / 2"

definition scenarioNodes :: "Node list" where
  "scenarioNodes = [nodeAt 0 0 0 0, nodeAt 100 0 0 0, nodeAt 400 0 0 0]"

definition twoNodes :: "Node list" where
  "twoNodes = [nodeAt 0 0 (1 / 10) (1 / 10), nodeAt 100 0 (1 / 10) 0]"

definition idlePage :: "Node list \<Rightarrow> Page" where
  "idlePage ns =
     \<lparr>animation = idleAnimation ns, canvasWidth = 800, canvasHeight = 600, randomCalls = 0\<rparr>"

definition zeroRandom :: random where
  "zeroRandom k = 0"

definition fastNode :: Node where
  "fastNode = nodeAt 10 10 (- (8 / 10)) (8 / 10)"

definition movingNode :: Node where
  "movingNode = nodeAt 100 100 (1 / 2) 0"

definition shortPair :: "Node list" where
  "shortPair = [nodeAt 0 0 0 0, nodeAt 16 0 0 0]"

definition tinyPair :: "Node list" where
  "tinyPair = [nodeAt 0 0 0 0, nodeAt 10 0 0 0]"

definition firstPair :: "real \<Rightarrow> Connection" where
  "firstPair s = \<lparr>nodeA = 0, nodeB = 1, strength = s\<rparr>"

definition destroyingProgram :: behaviour where
  "destroyingProgram callback timestamp = (if callback = 1 then [Destroy] else [])"

definition twoPending :: FrameState where
  "twoPending = fold (frameStep destroyingProgram) [Call (RequestFrame 1), Call (RequestFrame 2)] newManager"

section \<open>Helper facts\<close>

subsection \<open>Clamping and distances\<close>

lemma clamp_within: "lo \<le> hi \<Longrightarrow> lo \<le> clamp v lo hi \<and> clamp v lo hi \<le> hi"
  by (simp add: clamp_def)

lemma clamp_inverted: "hi < lo \<Longrightarrow> clamp v lo hi = hi"
  by (simp add: clamp_def)

lemma clamp_id: "lo \<le> v \<Longrightarrow> v \<le> hi \<Longrightarrow> clamp v lo hi = v"
  by (simp add: clamp_def)

lemma clamp_abs: "0 \<le> m \<Longrightarrow> \<bar>clamp v (- m) m\<bar> \<le> m"
  unfolding clamp_def by (simp add: abs_le_iff min_def max_def)

lemma MAX_VELOCITY_nonneg: "0 \<le> MAX_VELOCITY"
  by (simp add: MAX_VELOCITY_def)

lemma distance_nonneg: "0 \<le> distance a b"
  by (simp add: distance_def Let_def)

lemma strength_range:
  assumes "0 \<le> d" "d < m"
  shows "0 < 1 - d / m \<and> 1 - d / m \<le> (1::real)"
  using assms by (auto simp: field_simps)

lemma sqrt_le_iff_sq: "0 \<le> t \<Longrightarrow> (sqrt v \<le> t) = (v \<le> t\<^sup>2)"
  by (metis real_sqrt_le_iff real_sqrt_abs abs_of_nonneg)

subsection \<open>The connection scan\<close>

lemma connectPair_set:
  "c \<in> set (connectPair ns m i j) \<longleftrightarrow>
     distance (ns ! i) (ns ! j) < m \<and>
     c = \<lparr>nodeA = i, nodeB = j, strength = 1 - distance (ns ! i) (ns ! j) / m\<rparr>"
  by (auto simp: connectPair_def Let_def)

lemma updateConnections_set:
  "c \<in> set (updateConnections ns m) \<longleftrightarrow>
     (\<exists>i j. i < j \<and> j < length ns \<and> distance (ns ! i) (ns ! j) < m \<and>
        c = \<lparr>nodeA = i, nodeB = j, strength = 1 - distance (ns ! i) (ns ! j) / m\<rparr>)"
  unfolding updateConnections_def
  by (auto simp: connectPair_set)

subsection \<open>The stages of the per-frame update\<close>

lemma bounceOffEdges_within:
  assumes "0 \<le> W" "0 \<le> H"
  shows "withinCanvas W H (bounceOffEdges W H node)"
  using assms by (auto simp: withinCanvas_def bounceOffEdges_def Let_def clamp_def)

lemma bounceOffEdges_reflects:
  assumes "x node \<le> 0 \<or> x node \<ge> W"
  shows "vx (bounceOffEdges W H node) = - vx node \<and> x (bounceOffEdges W H node) = clamp (x node) 0 W"
  using assms by (simp add: bounceOffEdges_def Let_def)

lemma changeDirection_position:
  "x (fst (changeDirection rnd k node)) = x node \<and> y (fst (changeDirection rnd k node)) = y node"
  by (simp add: changeDirection_def Let_def)

lemma updateCharacter_kinematics:
  "x (fst (updateCharacter now rnd k node)) = x node \<and>
   y (fst (updateCharacter now rnd k node)) = y node \<and>
   vx (fst (updateCharacter now rnd k node)) = vx node \<and>
   vy (fst (updateCharacter now rnd k node)) = vy node"
  by (simp add: updateCharacter_def)

lemma bounceOffEdges_velocity:
  "\<bar>vx (bounceOffEdges W H node)\<bar> = \<bar>vx node\<bar> \<and> \<bar>vy (bounceOffEdges W H node)\<bar> = \<bar>vy node\<bar>"
  by (simp add: bounceOffEdges_def Let_def)

lemma updatePosition_velocity:
  "vx (updatePosition dt node) = vx node \<and> vy (updatePosition dt node) = vy node"
  by (simp add: updatePosition_def Let_def)

lemma changeDirection_bounded:
  "velocityBounded node \<Longrightarrow> velocityBounded (fst (changeDirection rnd k node))"
  by (simp add: changeDirection_def velocityBounded_def Let_def clamp_abs MAX_VELOCITY_nonneg)

lemma randomVelocity_range:
  fixes r :: real
  assumes "0 \<le> r" "r < 1"
  shows "\<bar>(r - 1 / 2) * (1 / 2)\<bar> \<le> 1 / 4"
proof -
  from assms have "(r - 1 / 2) * (1 / 2) \<le> 1 / 4" and "- ((r - 1 / 2) * (1 / 2)) \<le> 1 / 4"
    by simp_all
  then show ?thesis by (rule abs_leI)
qed

lemma updateNode_within:
  assumes "withinCanvas W H node"
  shows "withinCanvas W H (fst (updateNode W H dt now rnd k node))"
proof (cases "Node.isDragging node")
  case True
  with assms show ?thesis
    by (simp add: updateNode_def withinCanvas_def updateCharacter_kinematics)
next
  case False
  from assms have "0 \<le> W" "0 \<le> H" by (auto simp: withinCanvas_def)
  then have "withinCanvas W H (bounceOffEdges W H (updatePosition dt node))"
    by (rule bounceOffEdges_within)
  with False show ?thesis
    by (simp add: updateNode_def withinCanvas_def updateCharacter_kinematics
        changeDirection_position case_prod_beta)
qed

lemma updateNode_velocityBounded:
  assumes "velocityBounded node"
  shows "velocityBounded (fst (updateNode W H dt now rnd k node))"
proof -
  have "velocityBounded (bounceOffEdges W H (updatePosition dt node))"
    using assms by (simp add: velocityBounded_def bounceOffEdges_velocity updatePosition_velocity)
  from changeDirection_bounded [OF this] assms show ?thesis
    by (simp add: updateNode_def velocityBounded_def updateCharacter_kinematics case_prod_beta)
qed

lemma updateNodes_length: "length (fst (updateNodes W H dt now rnd k ns)) = length ns"
  by (induction ns arbitrary: k) (simp_all add: case_prod_beta)

lemma updateNodes_nth:
  "i < length ns \<Longrightarrow>
   \<exists>k'. fst (updateNodes W H dt now rnd k ns) ! i = fst (updateNode W H dt now rnd k' (ns ! i))"
proof (induction ns arbitrary: k i)
  case Nil
  then show ?case by simp
next
  case (Cons node ns)
  show ?case
  proof (cases i)
    case 0
    then show ?thesis by (auto simp: case_prod_beta intro: exI [of _ k])
  next
    case (Suc i')
    with Cons.prems have "i' < length ns" by simp
    from Cons.IH [OF this] Suc show ?thesis
      by (simp add: case_prod_beta)
  qed
qed

lemma updateNodes_within:
  assumes "i < length ns" "withinCanvas W H (ns ! i)"
  shows "withinCanvas W H (fst (updateNodes W H dt now rnd k ns) ! i)"
  using updateNodes_nth [OF assms(1), of W H dt now rnd k] updateNode_within [OF assms(2)]
  by auto

lemma repositionNodes_within:
  assumes "50 \<le> W" "50 \<le> H"
  shows "\<forall>node \<in> set (repositionNodes W H ns). withinCanvas W H node"
  using assms by (auto simp: repositionNodes_def withinCanvas_def clamp_def Let_def)

subsection \<open>The standalone copy agrees with the component\<close>

lemma getDistance_distance: "getDistance a b = distance a b"
  by (simp add: getDistance_def distance_def Let_def power2_eq_square algebra_simps)

lemma max_min_clamp: "lo \<le> hi \<Longrightarrow> max lo (min hi v) = clamp v lo hi"
  by (simp add: clamp_def min_def max_def)

lemma bounceOffEdgesStandalone_bounceOffEdges:
  assumes "0 \<le> W" "0 \<le> H"
  shows "bounceOffEdgesStandalone W H node = bounceOffEdges W H node"
  using assms by (simp add: bounceOffEdgesStandalone_def bounceOffEdges_def max_min_clamp)

lemma changeDirectionStandalone_changeDirection:
  "changeDirectionStandalone rnd k node = changeDirection rnd k node"
proof -
  have "max (- (8 / 10)) (min (8 / 10) v) = clamp v (- (8 / 10)) (8 / 10)" for v :: real
    by (rule max_min_clamp) simp
  then show ?thesis
    by (simp add: changeDirectionStandalone_def changeDirection_def Let_def
        DIRECTION_CHANGE_PROBABILITY_def MAX_VELOCITY_def)
qed

lemma updateNodeStandalone_updateNode:
  assumes "0 \<le> W" "0 \<le> H" "\<not> Node.isDragging node"
  shows "updateNodeStandalone W H dt now rnd k node = updateNode W H dt now rnd k node"
  using assms
  by (simp add: updateNodeStandalone_def updateNode_def bounceOffEdgesStandalone_bounceOffEdges
      changeDirectionStandalone_changeDirection)

lemma repositionNodesStandalone_within:
  assumes "\<forall>node \<in> set ns. withinCanvas W H node"
  shows "repositionNodesStandalone W H ns = ns"
  using assms
  by (induction ns) (simp_all add: repositionNodesStandalone_def withinCanvas_def Let_def)

subsection \<open>Picking a node\<close>

lemma findNodeFrom_range:
  "findNodeFrom j ns px py = Some i \<Longrightarrow> j \<le> i \<and> i < j + length ns"
  by (induction ns arbitrary: j) (fastforce simp: Let_def split: if_splits)+

lemma findNodeAtPosition_range:
  "findNodeAtPosition ns px py = Some i \<Longrightarrow> i < length ns"
  using findNodeFrom_range [of 0 ns px py i] by (simp add: findNodeAtPosition_def)

subsection \<open>The velocity limit under every handler\<close>

lemma all_nodes_update:
  assumes "\<forall>node \<in> set ns. P node" and "P v"
  shows "\<forall>node \<in> set (ns[i := v]). P node"
  using assms set_update_subset_insert [of ns i v] by auto

lemma updateNode_saved:
  "originalVx (fst (updateNode W H dt now rnd k node)) = originalVx node \<and>
   originalVy (fst (updateNode W H dt now rnd k node)) = originalVy node"
  by (simp add: updateNode_def updateCharacter_def changeDirection_def bounceOffEdges_def
      updatePosition_def Let_def case_prod_beta)

lemma updateNode_velocityInvariant:
  "velocityInvariant node \<Longrightarrow> velocityInvariant (fst (updateNode W H dt now rnd k node))"
  by (simp add: velocityInvariant_def savedVelocityBounded_def updateNode_saved
      updateNode_velocityBounded)

lemma updateNodes_pointwise:
  assumes "\<And>k node. P node \<Longrightarrow> P (fst (updateNode W H dt now rnd k node))"
    and "\<forall>node \<in> set ns. P node"
  shows "\<forall>node \<in> set (fst (updateNodes W H dt now rnd k ns)). P node"
  using assms(2)
  by (induction ns arbitrary: k) (simp_all add: case_prod_beta assms(1))

lemma restoreOrRandom_bounded:
  assumes "unitRandom rnd"
    and "case original of None \<Rightarrow> True | Some v \<Rightarrow> \<bar>v\<bar> \<le> MAX_VELOCITY"
  shows "\<bar>fst (restoreOrRandom original rnd k)\<bar> \<le> MAX_VELOCITY"
proof -
  from assms(1) have "0 \<le> rnd k" "rnd k < 1" by (simp_all add: unitRandom_def)
  then have "\<bar>(rnd k - 1 / 2) * (1 / 2)\<bar> \<le> 1 / 4" by (rule randomVelocity_range)
  then have "\<bar>(rnd k - 1 / 2) * (1 / 2)\<bar> \<le> MAX_VELOCITY" by (simp add: MAX_VELOCITY_def)
  with assms(2) show ?thesis
    by (auto simp: restoreOrRandom_def split: option.splits)
qed

lemma handleMouseDown_nodes:
  "nodes (handleMouseDown s px py) =
     (case findNodeAtPosition (nodes s) px py of
        None \<Rightarrow> nodes s
      | Some i \<Rightarrow> (nodes s)[i := pressed (nodes s ! i)])"
  by (simp add: handleMouseDown_def pressed_def Let_def split: option.split)

lemma handleTouchStart_nodes:
  "nodes (handleTouchStart s [(px, py)]) = nodes (handleMouseDown s px py)"
  by (simp add: handleTouchStart_def handleMouseDown_def Let_def split: option.split)

lemma handleTouchStart_ignored:
  "length touches \<noteq> 1 \<Longrightarrow> handleTouchStart s touches = s"
  by (cases touches rule: list.exhaust [case_product list.exhaust])
     (auto simp: handleTouchStart_def split: list.split)

lemma pressed_velocityInvariant:
  "velocityInvariant node \<Longrightarrow> velocityInvariant (pressed node)"
  by (simp add: velocityInvariant_def velocityBounded_def savedVelocityBounded_def
      MAX_VELOCITY_nonneg pressed_def)

lemma handleMouseDown_velocityInvariant:
  assumes "\<forall>node \<in> set (nodes s). velocityInvariant node"
  shows "\<forall>node \<in> set (nodes (handleMouseDown s px py)). velocityInvariant node"
proof (cases "findNodeAtPosition (nodes s) px py")
  case None
  with assms show ?thesis by (simp add: handleMouseDown_nodes)
next
  case (Some i)
  then have "i < length (nodes s)" by (rule findNodeAtPosition_range)
  with assms have "velocityInvariant (pressed (nodes s ! i))"
    by (simp add: pressed_velocityInvariant)
  from all_nodes_update [OF assms this] Some show ?thesis
    by (simp add: handleMouseDown_nodes)
qed

lemma singleton_or_not:
  obtains (single) a where "touches = [a]" | (other) "length touches \<noteq> 1"
  by (cases touches; cases "tl touches") auto

lemma handleTouchStart_velocityInvariant:
  assumes "\<forall>node \<in> set (nodes s). velocityInvariant node"
  shows "\<forall>node \<in> set (nodes (handleTouchStart s touches)). velocityInvariant node"
proof (cases touches rule: singleton_or_not)
  case (single a)
  obtain px py where "a = (px, py)" by (cases a)
  with single handleMouseDown_velocityInvariant [OF assms, of px py] show ?thesis
    by (simp add: handleTouchStart_nodes)
next
  case other
  with assms show ?thesis by (simp add: handleTouchStart_ignored)
qed

lemma all_nodes_modify:
  assumes "\<forall>node \<in> set ns. P node" and "i < length ns \<Longrightarrow> P v"
  shows "\<forall>node \<in> set (ns[i := v]). P node"
proof (cases "i < length ns")
  case True
  then have "P v" by (rule assms(2))
  with assms(1) show ?thesis by (rule all_nodes_update)
next
  case False
  then have "ns[i := v] = ns" by (intro list_update_beyond) simp
  with assms(1) show ?thesis by (simp only:)
qed

lemma reposition_velocityInvariant:
  "velocityInvariant (node\<lparr>x := a, y := b\<rparr>) = velocityInvariant node"
  by (simp add: velocityInvariant_def velocityBounded_def savedVelocityBounded_def)

lemma handleMouseMove_nodes:
  "nodes (handleMouseMove s W H px py) =
     (case dragTarget s of
        None \<Rightarrow> nodes s
      | Some i \<Rightarrow> (nodes s)[i := (nodes s ! i)
          \<lparr>x := clamp (px - fst (mouseOffset s)) 0 W,
           y := clamp (py - snd (mouseOffset s)) 0 H\<rparr>])"
  by (cases "isDragging s"; cases "draggedNode s")
     (simp_all add: handleMouseMove_def dragTarget_def Let_def)

lemma handleTouchMove_nodes:
  "nodes (handleTouchMove s W H [(px, py)]) = nodes (handleMouseMove s W H px py)"
  by (cases "isDragging s"; cases "draggedNode s")
     (simp_all add: handleTouchMove_def handleMouseMove_def Let_def)

lemma handleTouchMove_ignored:
  "length touches \<noteq> 1 \<Longrightarrow> handleTouchMove s W H touches = s"
  by (cases touches; cases "tl touches") (auto simp: handleTouchMove_def split: list.split)

lemma handleMouseMove_velocityInvariant:
  assumes "\<forall>node \<in> set (nodes s). velocityInvariant node"
  shows "\<forall>node \<in> set (nodes (handleMouseMove s W H px py)). velocityInvariant node"
proof (cases "dragTarget s")
  case None
  with assms show ?thesis by (simp add: handleMouseMove_nodes)
next
  case (Some i)
  have "\<forall>node \<in> set ((nodes s)[i := (nodes s ! i)
          \<lparr>x := clamp (px - fst (mouseOffset s)) 0 W,
           y := clamp (py - snd (mouseOffset s)) 0 H\<rparr>]). velocityInvariant node"
    using assms by (intro all_nodes_modify) (simp_all add: reposition_velocityInvariant)
  with Some show ?thesis by (simp add: handleMouseMove_nodes)
qed

lemma handleTouchMove_velocityInvariant:
  assumes "\<forall>node \<in> set (nodes s). velocityInvariant node"
  shows "\<forall>node \<in> set (nodes (handleTouchMove s W H touches)). velocityInvariant node"
proof (cases touches rule: singleton_or_not)
  case (single a)
  obtain px py where "a = (px, py)" by (cases a)
  with single handleMouseMove_velocityInvariant [OF assms, of W H px py] show ?thesis
    by (simp add: handleTouchMove_nodes)
next
  case other
  with assms show ?thesis by (simp add: handleTouchMove_ignored)
qed

lemma releaseDraggedNode_nodes:
  "nodes (fst (releaseDraggedNode s rnd k)) =
     (case dragTarget s of
        None \<Rightarrow> nodes s
      | Some i \<Rightarrow> (nodes s)[i := released rnd k (nodes s ! i)])"
  by (cases "isDragging s"; cases "draggedNode s")
     (simp_all add: releaseDraggedNode_def dragTarget_def released_def Let_def case_prod_beta)

lemma released_velocityInvariant:
  assumes "unitRandom rnd" and "savedVelocityBounded node"
  shows "velocityInvariant (released rnd k node)"
proof -
  from assms(2) have "\<bar>fst (restoreOrRandom (originalVx node) rnd k)\<bar> \<le> MAX_VELOCITY"
    and "\<bar>fst (restoreOrRandom (originalVy node) rnd
               (snd (restoreOrRandom (originalVx node) rnd k)))\<bar> \<le> MAX_VELOCITY"
    by (simp_all add: savedVelocityBounded_def restoreOrRandom_bounded [OF assms(1)])
  then show ?thesis
    by (simp add: velocityInvariant_def velocityBounded_def savedVelocityBounded_def
        released_def)
qed

lemma releaseDraggedNode_velocityInvariant:
  assumes "unitRandom rnd" and "\<forall>node \<in> set (nodes s). velocityInvariant node"
  shows "\<forall>node \<in> set (nodes (fst (releaseDraggedNode s rnd k))). velocityInvariant node"
proof (cases "dragTarget s")
  case None
  with assms show ?thesis by (simp add: releaseDraggedNode_nodes)
next
  case (Some i)
  have "\<forall>node \<in> set ((nodes s)[i := released rnd k (nodes s ! i)]). velocityInvariant node"
  proof (rule all_nodes_modify [OF assms(2)])
    assume "i < length (nodes s)"
    with assms(2) have "savedVelocityBounded (nodes s ! i)" by (simp add: velocityInvariant_def)
    with assms(1) show "velocityInvariant (released rnd k (nodes s ! i))"
      by (rule released_velocityInvariant)
  qed
  with Some show ?thesis by (simp add: releaseDraggedNode_nodes)
qed

lemma handleMouseUp_velocityInvariant:
  assumes "unitRandom rnd" and "\<forall>node \<in> set (nodes s). velocityInvariant node"
  shows "\<forall>node \<in> set (nodes (fst (handleMouseUp s rnd k))). velocityInvariant node"
  using releaseDraggedNode_velocityInvariant [OF assms, of k]
  by (simp add: handleMouseUp_def case_prod_beta)

lemma handleTouchEnd_velocityInvariant:
  assumes "unitRandom rnd" and "\<forall>node \<in> set (nodes s). velocityInvariant node"
  shows "\<forall>node \<in> set (nodes (fst (handleTouchEnd s rnd k))). velocityInvariant node"
  using releaseDraggedNode_velocityInvariant [OF assms, of k]
  by (simp add: handleTouchEnd_def case_prod_beta)

lemma repositionNodes_velocityInvariant:
  assumes "\<forall>node \<in> set ns. velocityInvariant node"
  shows "\<forall>node \<in> set (repositionNodes W H ns). velocityInvariant node"
  using assms by (simp add: repositionNodes_def Let_def reposition_velocityInvariant)

lemma animate_velocityInvariant:
  assumes "\<forall>node \<in> set (nodes s). velocityInvariant node"
  shows "\<forall>node \<in> set (nodes (fst (animate active W H t now rnd k s))). velocityInvariant node"
proof -
  have "\<forall>node \<in> set (fst (updateNodes W H dt now rnd k (nodes s))). velocityInvariant node" for dt
    using assms by (intro updateNodes_pointwise) (simp_all add: updateNode_velocityInvariant)
  with assms show ?thesis
    by (simp add: animate_def Let_def case_prod_beta)
qed

lemma dispatch_velocityInvariant:
  assumes "unitRandom rnd" and "\<forall>node \<in> set (nodes (animation p)). velocityInvariant node"
  shows "\<forall>node \<in> set (nodes (animation (dispatch rnd e p))). velocityInvariant node"
proof (cases e)
  case (MouseDown px py)
  with assms(2) show ?thesis by (simp add: handleMouseDown_velocityInvariant)
next
  case (MouseMove px py)
  with assms(2) show ?thesis by (simp add: handleMouseMove_velocityInvariant)
next
  case MouseUp
  with handleMouseUp_velocityInvariant [OF assms] show ?thesis by (simp add: case_prod_beta)
next
  case MouseLeave
  with handleMouseUp_velocityInvariant [OF assms] show ?thesis by (simp add: case_prod_beta)
next
  case (TouchStart touches)
  with assms(2) show ?thesis by (simp add: handleTouchStart_velocityInvariant)
next
  case (TouchMove touches)
  with assms(2) show ?thesis by (simp add: handleTouchMove_velocityInvariant)
next
  case TouchEnd
  with handleTouchEnd_velocityInvariant [OF assms] show ?thesis by (simp add: case_prod_beta)
next
  case (WindowResize w h)
  with assms(2) show ?thesis by (simp add: repositionNodes_velocityInvariant)
next
  case (CanvasResize w h)
  with assms(2) show ?thesis by simp
next
  case (VisibilityChange hidden)
  with assms(2) show ?thesis by simp
next
  case (Scroll currentScrollY)
  with assms(2) show ?thesis by (simp add: handleScroll_def Let_def)
next
  case (Frame currentTime now)
  with animate_velocityInvariant [OF assms(2)] show ?thesis by (simp add: case_prod_beta)
qed

lemma run_velocityInvariant:
  assumes "unitRandom rnd" and "\<forall>node \<in> set (nodes (animation p)). velocityInvariant node"
  shows "\<forall>node \<in> set (nodes (animation (run rnd es p))). velocityInvariant node"
  using assms(2)
proof (induction es arbitrary: p)
  case Nil
  then show ?case by simp
next
  case (Cons e es)
  have "\<forall>node \<in> set (nodes (animation (dispatch rnd e p))). velocityInvariant node"
    by (rule dispatch_velocityInvariant [OF assms(1) Cons.prems])
  from Cons.IH [OF this] show ?case by simp
qed

lemma initializeNode_velocityBounded:
  assumes "unitRandom rnd"
  shows "velocityBounded (fst (initializeNode W H rnd k))"
proof -
  from assms have "0 \<le> rnd (k + 2) \<and> rnd (k + 2) < 1" "0 \<le> rnd (k + 3) \<and> rnd (k + 3) < 1"
    by (simp_all add: unitRandom_def)
  then have "\<bar>(rnd (k + 2) - 1 / 2) * (1 / 2)\<bar> \<le> 1 / 4"
    "\<bar>(rnd (k + 3) - 1 / 2) * (1 / 2)\<bar> \<le> 1 / 4"
    by (simp_all only: randomVelocity_range)
  then show ?thesis
    unfolding initializeNode_def velocityBounded_def randomVelocity_def MAX_VELOCITY_def Let_def
    by simp
qed

lemma initializeNodes_velocityInvariant:
  assumes "unitRandom rnd"
  shows "\<forall>node \<in> set (fst (initializeNodes W H rnd k count)). velocityInvariant node"
proof -
  have "velocityInvariant (fst (initializeNode W H rnd k))" for k
    using initializeNode_velocityBounded [OF assms, of W H k]
    by (simp add: velocityInvariant_def savedVelocityBounded_def initializeNode_def Let_def)
  then show ?thesis
    by (induction count arbitrary: k) (simp_all add: case_prod_beta)
qed

lemma velocityInvariant_bounded: "velocityInvariant node \<Longrightarrow> velocityBounded node"
  by (simp add: velocityInvariant_def)

lemma unitRandom_zeroRandom: "unitRandom zeroRandom"
  by (simp add: unitRandom_def zeroRandom_def)

lemma updateNodes_fastNode:
  "fst (updateNodes 800 600 16 0 zeroRandom 0 [fastNode])
     = [nodeAt (10 - 256 / 1000) (10 + 256 / 1000) (- (8 / 10)) (3 / 4)]"
  by (simp add: fastNode_def nodeAt_def updateNode_def updatePosition_def bounceOffEdges_def
      changeDirection_def updateCharacter_def zeroRandom_def Let_def clamp_def
      MOVEMENT_SPEED_def MAX_VELOCITY_def DIRECTION_CHANGE_PROBABILITY_def
      CHARACTER_UPDATE_INTERVAL_MIN_def CHARACTER_UPDATE_INTERVAL_MAX_def)

subsection \<open>Positions under the per-frame update\<close>

lemma updateNode_position:
  "x (fst (updateNode W H dt now rnd k node))
     = (if Node.isDragging node then x node else x (bounceOffEdges W H (updatePosition dt node)))
   \<and> y (fst (updateNode W H dt now rnd k node))
     = (if Node.isDragging node then y node else y (bounceOffEdges W H (updatePosition dt node)))"
  by (simp add: updateNode_def updateCharacter_kinematics changeDirection_position case_prod_beta)

lemma updatePosition_zero: "updatePosition 0 node = node"
  by (simp add: updatePosition_def)

lemma bounceOffEdges_position_within:
  assumes "withinCanvas W H node"
  shows "x (bounceOffEdges W H node) = x node \<and> y (bounceOffEdges W H node) = y node"
  using assms by (auto simp: bounceOffEdges_def withinCanvas_def clamp_def Let_def)

lemma bounceOffEdges_x_inside:
  assumes "0 < x node" "x node < W"
  shows "x (bounceOffEdges W H node) = x node"
  using assms by (simp add: bounceOffEdges_def Let_def)

lemma updatePosition_x: "x (updatePosition dt node) = x node + vx node * dt * MOVEMENT_SPEED"
  by (simp add: updatePosition_def Let_def)

lemma bounceOffEdges_y_inside:
  assumes "0 < y node" "y node < H"
  shows "y (bounceOffEdges W H node) = y node"
  using assms by (simp add: bounceOffEdges_def Let_def)

lemma updatePosition_y: "y (updatePosition dt node) = y node + vy node * dt * MOVEMENT_SPEED"
  by (simp add: updatePosition_def Let_def)

lemma updateNodes_movingNode_back:
  "fst (updateNodes 800 600 (- 100) 0 halfRandom 0 [movingNode]) = [nodeAt 99 100 (1 / 2) 0]"
  by (simp add: movingNode_def nodeAt_def updateNode_def updatePosition_def bounceOffEdges_def
      changeDirection_def updateCharacter_def halfRandom_def Let_def clamp_def
      MOVEMENT_SPEED_def MAX_VELOCITY_def DIRECTION_CHANGE_PROBABILITY_def
      CHARACTER_UPDATE_INTERVAL_MIN_def CHARACTER_UPDATE_INTERVAL_MAX_def)

subsection \<open>Press followed by release\<close>

lemma handleMouseDown_dragTarget:
  "findNodeAtPosition (nodes s) px py = Some i \<Longrightarrow> dragTarget (handleMouseDown s px py) = Some i"
  by (simp add: handleMouseDown_def dragTarget_def Let_def)

lemma handleTouchStart_dragTarget:
  "findNodeAtPosition (nodes s) px py = Some i \<Longrightarrow>
   dragTarget (handleTouchStart s [(px, py)]) = Some i"
  by (simp add: handleTouchStart_def dragTarget_def Let_def)

lemma handleMouseUp_nodes:
  "nodes (fst (handleMouseUp s rnd k)) = nodes (fst (releaseDraggedNode s rnd k))"
  by (simp add: handleMouseUp_def case_prod_beta)

lemma handleTouchEnd_nodes:
  "nodes (fst (handleTouchEnd s rnd k)) = nodes (fst (releaseDraggedNode s rnd k))"
  by (simp add: handleTouchEnd_def case_prod_beta)

lemma released_pressed:
  "released rnd k (pressed node) =
     node\<lparr>vx := (if vx node \<noteq> 0 then vx node else (rnd k - 1 / 2) * (1 / 2)),
          vy := (if vy node \<noteq> 0 then vy node
                 else (rnd (if vx node \<noteq> 0 then k else k + 1) - 1 / 2) * (1 / 2)),
          Node.isDragging := False, originalVx := None, originalVy := None\<rparr>"
  by (simp add: released_def pressed_def restoreOrRandom_def)

lemma findNode_twoNodes: "findNodeAtPosition (nodes (idleAnimation twoNodes)) 100 0 = Some 1"
  by (simp add: findNodeAtPosition_def idleAnimation_def twoNodes_def nodeAt_def sqrt_le_iff_sq)

lemma run_append: "run rnd (es @ es') p = run rnd es' (run rnd es p)"
  by (induction es arbitrary: p) simp_all

lemma updateNode_dragged_motion:
  "Node.isDragging node \<Longrightarrow> motion (fst (updateNode W H dt now rnd k node)) = motion node"
  by (simp add: updateNode_def updateCharacter_def motion_def)

lemma handleMouseDown_holds:
  assumes "findNodeAtPosition (nodes s) px py = Some i"
  shows "holds i (nodes s ! i) (handleMouseDown s px py)"
proof -
  from assms have "i < length (nodes s)" by (rule findNodeAtPosition_range)
  with assms show ?thesis
    by (simp add: holds_def handleMouseDown_dragTarget handleMouseDown_nodes)
qed

lemma handleTouchStart_holds:
  assumes "findNodeAtPosition (nodes s) px py = Some i"
  shows "holds i (nodes s ! i) (handleTouchStart s [(px, py)])"
proof -
  from assms have "i < length (nodes s)" by (rule findNodeAtPosition_range)
  with assms show ?thesis
    by (simp add: holds_def handleTouchStart_dragTarget handleTouchStart_nodes
        handleMouseDown_nodes)
qed

lemma handleScroll_dragTarget:
  "dragTarget (handleScroll s currentScrollY) = dragTarget s
   \<and> nodes (handleScroll s currentScrollY) = nodes s"
  by (simp add: handleScroll_def dragTarget_def Let_def)

lemma handleScroll_holds: "holds i node s \<Longrightarrow> holds i node (handleScroll s currentScrollY)"
  by (simp add: holds_def handleScroll_dragTarget)

lemma animate_dragTarget: "dragTarget (fst (animate active W H t now rnd k s)) = dragTarget s"
  by (simp add: animate_def dragTarget_def Let_def case_prod_beta)

lemma animate_nodes:
  "nodes (fst (animate active W H t now rnd k s)) = nodes s
   \<or> nodes (fst (animate active W H t now rnd k s))
       = fst (updateNodes W H (t - lastUpdateTime s) now rnd k (nodes s))"
  by (simp add: animate_def Let_def case_prod_beta)

lemma updateNodes_holds:
  assumes "i < length ns" "motion (ns ! i) = motion (pressed node)"
  shows "motion (fst (updateNodes W H dt now rnd k ns) ! i) = motion (pressed node)"
proof -
  from assms(2) have "Node.isDragging (ns ! i)" by (simp add: motion_def pressed_def)
  then have "motion (fst (updateNode W H dt now rnd k' (ns ! i))) = motion (ns ! i)" for k'
    by (rule updateNode_dragged_motion)
  with updateNodes_nth [OF assms(1), of W H dt now rnd k] assms(2) show ?thesis by auto
qed

lemma animate_holds:
  assumes "holds i node s"
  shows "holds i node (fst (animate active W H t now rnd k s))"
proof -
  from assms have d: "dragTarget s = Some i" and l: "i < length (nodes s)"
    and m: "motion (nodes s ! i) = motion (pressed node)"
    by (simp_all add: holds_def)
  have "motion (fst (updateNodes W H dt now rnd k (nodes s)) ! i) = motion (pressed node)" for dt
    using l m by (rule updateNodes_holds)
  with animate_nodes [of active W H t now rnd k s] d l m show ?thesis
    by (auto simp: holds_def animate_dragTarget updateNodes_length)
qed

lemma dispatch_tick_holds:
  assumes "tick e" "holds i node (animation p)"
  shows "holds i node (animation (dispatch rnd e p))"
proof (cases e)
  case (Scroll currentScrollY)
  with assms(2) show ?thesis by (simp add: handleScroll_holds)
next
  case (Frame currentTime now)
  with animate_holds [OF assms(2)] show ?thesis by (simp add: case_prod_beta)
qed (use assms(1) in simp_all)

lemma run_tick_holds:
  assumes "\<forall>e \<in> set es. tick e" "holds i node (animation p)"
  shows "holds i node (animation (run rnd es p))"
  using assms
proof (induction es arbitrary: p)
  case Nil
  then show ?case by simp
next
  case (Cons e es)
  from Cons.prems have "holds i node (animation (dispatch rnd e p))"
    by (simp add: dispatch_tick_holds)
  with Cons.IH [of "dispatch rnd e p"] Cons.prems(1) show ?case by simp
qed

lemma released_motion:
  assumes "motion held = motion (pressed node)"
  shows "motion (released rnd k held) = motion (released rnd k (pressed node))"
  using assms by (simp add: motion_def released_def)

lemma release_holds:
  assumes "holds i node s"
  shows "motion (nodes (fst (releaseDraggedNode s rnd k)) ! i) = motion (released rnd k (pressed node))"
proof -
  from assms have d: "dragTarget s = Some i" and l: "i < length (nodes s)"
    and m: "motion (nodes s ! i) = motion (pressed node)"
    by (simp_all add: holds_def)
  from d l have "nodes (fst (releaseDraggedNode s rnd k)) ! i = released rnd k (nodes s ! i)"
    by (simp add: releaseDraggedNode_nodes)
  with released_motion [OF m] show ?thesis by simp
qed

lemma dispatch_press:
  assumes "findNodeAtPosition (nodes (animation p)) px py = Some i"
    and "press \<in> {MouseDown px py, TouchStart [(px, py)]}"
  shows "holds i (nodes (animation p) ! i) (animation (dispatch rnd press p))"
  using assms by (auto simp: handleMouseDown_holds handleTouchStart_holds)

lemma dispatch_release:
  assumes "release \<in> {MouseUp, MouseLeave, TouchEnd}"
  shows "nodes (animation (dispatch rnd release p))
           = nodes (fst (releaseDraggedNode (animation p) rnd (randomCalls p)))"
  using assms by (auto simp: case_prod_beta handleMouseUp_nodes handleTouchEnd_nodes)

lemma findNode_idlePage: "findNodeAtPosition (nodes (animation (idlePage twoNodes))) 100 0 = Some 1"
  by (simp add: idlePage_def findNode_twoNodes)

subsection \<open>The frame manager\<close>

lemma perform_fired: "fired (perform c w) = fired w"
  by (cases c)
     (simp_all add: requestFrame_def requestAnimationFrame_def cancelFrame_def
        cancelAnimationFrame_def cancelAllFrames_def destroy_def Let_def)

lemma perform_destroyed: "isDestroyed w \<Longrightarrow> isDestroyed (perform c w)"
  by (cases c)
     (simp_all add: requestFrame_def requestAnimationFrame_def cancelFrame_def
        cancelAnimationFrame_def cancelAllFrames_def destroy_def Let_def)

lemma perform_tracked: "tracked w \<Longrightarrow> tracked (perform c w)"
  by (cases c)
     (auto simp: tracked_def requestFrame_def requestAnimationFrame_def cancelFrame_def
        cancelAnimationFrame_def cancelAllFrames_def destroy_def Let_def)

lemma fold_perform_fired: "fired (fold perform cs w) = fired w"
  by (induction cs arbitrary: w) (simp_all add: perform_fired)

lemma fold_perform_destroyed: "isDestroyed w \<Longrightarrow> isDestroyed (fold perform cs w)"
  by (induction cs arbitrary: w) (simp_all add: perform_destroyed)

lemma fold_perform_tracked: "tracked w \<Longrightarrow> tracked (fold perform cs w)"
  by (induction cs arbitrary: w) (simp_all add: perform_tracked)

lemma frameWrapper_destroyed:
  "isDestroyed w \<Longrightarrow>
   isDestroyed (frameWrapper program h cb t w) \<and> fired (frameWrapper program h cb t w) = fired w"
  by (simp add: frameWrapper_def)

lemma cancelAnimationFrame_unchanged:
  "isDestroyed (cancelAnimationFrame w h) = isDestroyed w \<and>
   fired (cancelAnimationFrame w h) = fired w"
  by (simp add: cancelAnimationFrame_def)

lemma runCallbacks_destroyed:
  "isDestroyed w \<Longrightarrow>
   isDestroyed (runCallbacks program t snapshot w) \<and>
   fired (runCallbacks program t snapshot w) = fired w"
proof (induction snapshot arbitrary: w)
  case Nil
  then show ?case by simp
next
  case (Cons entry snapshot)
  obtain h cb where e: "entry = (h, cb)" by (cases entry)
  let ?w = "if h \<in> fst ` set (frameCallbacks w)
            then frameWrapper program h cb t (cancelAnimationFrame w h) else w"
  from Cons.prems have "isDestroyed ?w \<and> fired ?w = fired w"
    by (simp add: frameWrapper_destroyed cancelAnimationFrame_unchanged)
  with Cons.IH [of ?w] e show ?case by simp
qed

lemma frameStep_destroyed:
  "isDestroyed w \<Longrightarrow>
   isDestroyed (frameStep program e w) \<and> fired (frameStep program e w) = fired w"
  by (cases e) (simp_all add: perform_destroyed perform_fired runCallbacks_destroyed)

lemma fold_frameStep_destroyed:
  "isDestroyed w \<Longrightarrow>
   isDestroyed (fold (frameStep program) es w) \<and> fired (fold (frameStep program) es w) = fired w"
proof (induction es arbitrary: w)
  case Nil
  then show ?case by simp
next
  case (Cons e es)
  from frameStep_destroyed [OF Cons.prems, of program e] Cons.IH [of "frameStep program e w"]
  show ?case by simp
qed

lemma frameWrapper_tracked:
  assumes "tracked w"
  shows "tracked (frameWrapper program h cb t (cancelAnimationFrame w h))"
proof -
  let ?w = "(cancelAnimationFrame w h)\<lparr>activeAnimations := activeAnimations w - {h}\<rparr>"
  from assms have t: "tracked ?w"
    by (auto simp: tracked_def cancelAnimationFrame_def)
  then have "tracked (?w\<lparr>fired := fired ?w @ [(cb, t)]\<rparr>)"
    by (simp add: tracked_def)
  then have "tracked (fold perform (program cb t) (?w\<lparr>fired := fired ?w @ [(cb, t)]\<rparr>))"
    by (rule fold_perform_tracked)
  with t show ?thesis
    by (simp add: frameWrapper_def cancelAnimationFrame_def Let_def)
qed

lemma runCallbacks_tracked: "tracked w \<Longrightarrow> tracked (runCallbacks program t snapshot w)"
proof (induction snapshot arbitrary: w)
  case Nil
  then show ?case by simp
next
  case (Cons entry snapshot)
  obtain h cb where e: "entry = (h, cb)" by (cases entry)
  let ?w = "if h \<in> fst ` set (frameCallbacks w)
            then frameWrapper program h cb t (cancelAnimationFrame w h) else w"
  from Cons.prems have "tracked ?w" by (simp add: frameWrapper_tracked)
  with Cons.IH [of ?w] e show ?case by simp
qed

lemma frameStep_tracked: "tracked w \<Longrightarrow> tracked (frameStep program e w)"
  by (cases e) (simp_all add: perform_tracked runCallbacks_tracked)

lemma fold_frameStep_tracked: "tracked w \<Longrightarrow> tracked (fold (frameStep program) es w)"
  by (induction es arbitrary: w) (simp_all add: frameStep_tracked)

lemma tracked_newManager: "tracked newManager"
  by (simp add: tracked_def newManager_def)

lemma destroy_tracked_empty:
  "tracked w \<Longrightarrow> frameCallbacks (destroy w) = [] \<and> activeAnimations (destroy w) = {}"
  by (auto simp: tracked_def destroy_def cancelAllFrames_def Let_def filter_empty_conv)

lemma destroy_destroyed: "isDestroyed (destroy w) \<and> fired (destroy w) = fired w"
  by (simp add: destroy_def cancelAllFrames_def Let_def)

lemma fold_perform_Destroy:
  "Destroy \<in> set cs \<Longrightarrow> isDestroyed (fold perform cs w)"
proof (induction cs arbitrary: w)
  case Nil
  then show ?case by simp
next
  case (Cons c cs)
  show ?case
  proof (cases "c = Destroy")
    case True
    have "isDestroyed (perform Destroy w)" by (simp add: destroy_destroyed)
    then have "isDestroyed (fold perform cs (perform Destroy w))"
      by (rule fold_perform_destroyed)
    with True show ?thesis by simp
  next
    case False
    with Cons.prems have "Destroy \<in> set cs" by simp
    from Cons.IH [OF this] show ?thesis by simp
  qed
qed

lemma perform_quiet: "quiet w \<Longrightarrow> quiet (perform c w)"
  by (cases c)
     (simp_all add: quiet_def requestFrame_def cancelFrame_def cancelAnimationFrame_def
        cancelAllFrames_def destroy_def Let_def)

lemma frameStep_quiet: "quiet w \<Longrightarrow> quiet (frameStep program e w)"
proof (cases e)
  case (Call c)
  assume "quiet w"
  with Call show ?thesis by (simp add: perform_quiet)
next
  case (AnimationFrame t)
  assume "quiet w"
  with AnimationFrame show ?thesis by (simp add: quiet_def)
qed

lemma fold_frameStep_quiet: "quiet w \<Longrightarrow> quiet (fold (frameStep program) es w)"
  by (induction es arbitrary: w) (simp_all add: frameStep_quiet)

lemma twoPending_eq:
  "twoPending = \<lparr>activeAnimations = {1, 2}, isDestroyed = False,
                  frameCallbacks = [(1, 1), (2, 2)], lastHandle = 2, fired = []\<rparr>"
  by (simp add: twoPending_def newManager_def requestFrame_def requestAnimationFrame_def Let_def
      insert_commute numeral_2_eq_2)

subsection \<open>Two short connections\<close>

lemma updateConnections_shortPair:
  "updateConnections shortPair 150 = [firstPair (1 - 16 / 150)]"
  by (simp add: updateConnections_def connectPair_def distance_def shortPair_def nodeAt_def
      firstPair_def)

lemma connectionSteps_shortPair: "connectionSteps shortPair (firstPair s) = 2"
  by (simp add: connectionSteps_def shortPair_def firstPair_def nodeAt_def distance_def
      CHARACTER_SPACING_def)

lemma connectionSteps_tinyPair: "connectionSteps tinyPair (firstPair s) = 1"
proof -
  have "\<lfloor>(10 :: real) / 8\<rfloor> = 1" by (rule floor_unique) simp_all
  then show ?thesis
    by (simp add: connectionSteps_def tinyPair_def firstPair_def nodeAt_def distance_def
        CHARACTER_SPACING_def)
qed

section \<open>Connections\<close>

text \<open>
  Claim C1. For indices \<open>i < j\<close> into the node list, the rebuilt connection list holds a
  connection for the pair exactly when the Euclidean distance of the two nodes is strictly
  below \<open>maxConnectionDistance\<close>; its strength is then \<open>1 - distance / maxConnectionDistance\<close>,
  lies in \<open>(0, 1]\<close>, and of two connections the one between the farther nodes is strictly
  weaker.
\<close>

theorem updateConnections_iff_distance:
  assumes "i < j" and "j < length ns"
  shows "((\<exists>c \<in> set (updateConnections ns m). nodeA c = i \<and> nodeB c = j)
            \<longleftrightarrow> distance (ns ! i) (ns ! j) < m)
       \<and> (\<forall>c \<in> set (updateConnections ns m). nodeA c = i \<and> nodeB c = j \<longrightarrow>
            strength c = 1 - distance (ns ! i) (ns ! j) / m
            \<and> 0 < strength c \<and> strength c \<le> 1)
       \<and> (\<forall>c \<in> set (updateConnections ns m). \<forall>c' \<in> set (updateConnections ns m).
            distance (ns ! nodeA c) (ns ! nodeB c)
              < distance (ns ! nodeA c') (ns ! nodeB c')
            \<longrightarrow> strength c' < strength c)"
proof (intro conjI ballI impI)
  show "(\<exists>c \<in> set (updateConnections ns m). nodeA c = i \<and> nodeB c = j)
            \<longleftrightarrow> distance (ns ! i) (ns ! j) < m"
  proof
    assume "\<exists>c \<in> set (updateConnections ns m). nodeA c = i \<and> nodeB c = j"
    then show "distance (ns ! i) (ns ! j) < m"
      by (auto simp: updateConnections_set)
  next
    assume lt: "distance (ns ! i) (ns ! j) < m"
    let ?c = "\<lparr>nodeA = i, nodeB = j, strength = 1 - distance (ns ! i) (ns ! j) / m\<rparr>"
    from assms lt have "?c \<in> set (updateConnections ns m)"
      unfolding updateConnections_set by blast
    moreover have "nodeA ?c = i \<and> nodeB ?c = j" by simp
    ultimately show "\<exists>c \<in> set (updateConnections ns m). nodeA c = i \<and> nodeB c = j"
      by blast
  qed
next
  fix c assume c: "c \<in> set (updateConnections ns m)" and ij: "nodeA c = i \<and> nodeB c = j"
  from c ij have lt: "distance (ns ! i) (ns ! j) < m"
    and s: "strength c = 1 - distance (ns ! i) (ns ! j) / m"
    by (auto simp: updateConnections_set)
  from s show "strength c = 1 - distance (ns ! i) (ns ! j) / m" .
  from strength_range [OF distance_nonneg lt] s
  show "0 < strength c" and "strength c \<le> 1" by simp_all
next
  fix c c'
  assume c: "c \<in> set (updateConnections ns m)"
    and c': "c' \<in> set (updateConnections ns m)"
    and lt: "distance (ns ! nodeA c) (ns ! nodeB c)
              < distance (ns ! nodeA c') (ns ! nodeB c')"
  from c have sc: "strength c = 1 - distance (ns ! nodeA c) (ns ! nodeB c) / m"
    by (auto simp: updateConnections_set)
  from c' have sc': "strength c' = 1 - distance (ns ! nodeA c') (ns ! nodeB c') / m"
    and m: "distance (ns ! nodeA c') (ns ! nodeB c') < m"
    by (auto simp: updateConnections_set)
  from m have "0 < m" using distance_nonneg [of "ns ! nodeA c'" "ns ! nodeB c'"] by linarith
  with lt show "strength c' < strength c"
    unfolding sc sc' by (simp add: divide_strict_right_mono)
qed

text \<open>
  The scenario of the specification: nodes at \<open>(0,0)\<close>, \<open>(100,0)\<close>, \<open>(400,0)\<close> and a maximal
  distance of 150. The pair \<open>(0, 1)\<close> is connected with strength \<open>1 - 100/150\<close>, and it is
  the only connection.
\<close>

theorem updateConnections_iff_distance_witness:
  "(0::nat) < 1 \<and> 1 < length scenarioNodes
   \<and> distance (scenarioNodes ! 0) (scenarioNodes ! 1) < 150
   \<and> (\<exists>c \<in> set (updateConnections scenarioNodes 150).
         nodeA c = 0 \<and> nodeB c = 1 \<and> strength c = 1 - 100 / 150
         \<and> 0 < strength c \<and> strength c \<le> 1)"
proof -
  have d: "distance (scenarioNodes ! 0) (scenarioNodes ! 1) = 100"
    by (simp add: scenarioNodes_def nodeAt_def distance_def)
  have l: "(0::nat) < 1" "1 < length scenarioNodes"
    by (simp_all add: scenarioNodes_def)
  from updateConnections_iff_distance [OF l, of 150] d l show ?thesis
    by auto
qed

lemma updateConnections_scenario:
  "updateConnections scenarioNodes 150 = [\<lparr>nodeA = 0, nodeB = 1, strength = 1 - 100 / 150\<rparr>]"
  by (simp add: updateConnections_def connectPair_def distance_def scenarioNodes_def nodeAt_def upt_rec)

text \<open>
  Claim C9, as amended. A connection whose step count \<open>floor(distance / characterSpacing)\<close>
  is below 2 draws nothing. Any other connection draws \<open>steps - 1\<close> glyphs, one for every
  \<open>i\<close> with \<open>1 \<le> i < steps\<close> (the last interior step \<open>steps - 1\<close> included), the \<open>i\<close>-th at
  the point interpolated at \<open>progress = i / steps\<close>, with gray value
  \<open>floor(80 + strength * progress * (1 - progress) * 400)\<close> and alpha \<open>strength * 0.4\<close>.
\<close>

theorem renderConnection_glyphs:
  "(connectionSteps ns c < 2 \<longrightarrow> fst (renderConnection f ns rnd k c) = [])
   \<and> (1 \<le> i \<and> i < connectionSteps ns c \<longrightarrow>
        length (fst (renderConnection f ns rnd k c)) = nat (connectionSteps ns c - 1)
      \<and> fst (renderConnection f ns rnd k c) ! nat (i - 1)
          = \<lparr>glyph = randomNoiseChar (rnd (k + nat (i - 1))),
             atX = x (ns ! nodeA c)
                   + (x (ns ! nodeB c) - x (ns ! nodeA c)) / real_of_int (connectionSteps ns c)
                     * real_of_int i,
             atY = y (ns ! nodeA c)
                   + (y (ns ! nodeB c) - y (ns ! nodeA c)) / real_of_int (connectionSteps ns c)
                     * real_of_int i,
             fillStyle =
               (let progress = real_of_int i / real_of_int (connectionSteps ns c);
                    gray = \<lfloor>80 + (strength c * progress * (1 - progress) * 4) * 100\<rfloor>
                in (gray, gray, gray, strength c * (4 / 10))),
             font = f\<rparr>)"
proof (intro conjI impI)
  assume "connectionSteps ns c < 2"
  then show "fst (renderConnection f ns rnd k c) = []"
    by (simp add: renderConnection_def connectionSteps_def Let_def)
next
  assume i: "1 \<le> i \<and> i < connectionSteps ns c"
  then show "length (fst (renderConnection f ns rnd k c)) = nat (connectionSteps ns c - 1)"
    by (simp add: renderConnection_def connectionSteps_def Let_def)
next
  assume i: "1 \<le> i \<and> i < connectionSteps ns c"
  from i have n: "[1 .. connectionSteps ns c - 1] ! nat (i - 1) = i"
    by (simp add: nth_upto)
  from i have l: "nat (i - 1) < length [1 .. connectionSteps ns c - 1]" by simp
  from i have ns2: "\<not> connectionSteps ns c < 2" by simp
  show "fst (renderConnection f ns rnd k c) ! nat (i - 1)
          = \<lparr>glyph = randomNoiseChar (rnd (k + nat (i - 1))),
             atX = x (ns ! nodeA c)
                   + (x (ns ! nodeB c) - x (ns ! nodeA c)) / real_of_int (connectionSteps ns c)
                     * real_of_int i,
             atY = y (ns ! nodeA c)
                   + (y (ns ! nodeB c) - y (ns ! nodeA c)) / real_of_int (connectionSteps ns c)
                     * real_of_int i,
             fillStyle =
               (let progress = real_of_int i / real_of_int (connectionSteps ns c);
                    gray = \<lfloor>80 + (strength c * progress * (1 - progress) * 4) * 100\<rfloor>
                in (gray, gray, gray, strength c * (4 / 10))),
             font = f\<rparr>"
    unfolding renderConnection_def Let_def connectionSteps_def [symmetric]
    using ns2 l n by simp
qed

text \<open>
  The claim lets \<open>i\<close> range over \<open>[1, steps - 1)\<close>, which leaves the step \<open>steps - 1\<close> out: for
  two nodes 16 pixels apart (2 steps) that would be no glyph, and the renderer draws one,
  at the midpoint.
\<close>

theorem renderConnection_draws_last_step:
  "connectionSteps shortPair (firstPair (1 - 16 / 150)) = 2
   \<and> map atX (fst (renderConnection [] shortPair halfRandom 0 (firstPair (1 - 16 / 150)))) = [8]
   \<and> length (fst (renderConnection [] shortPair halfRandom 0 (firstPair (1 - 16 / 150))))
       \<noteq> length [1 .. connectionSteps shortPair (firstPair (1 - 16 / 150)) - 2]"
proof -
  have s: "\<lfloor>distance (shortPair ! nodeA (firstPair (1 - 16 / 150)))
             (shortPair ! nodeB (firstPair (1 - 16 / 150))) / CHARACTER_SPACING\<rfloor> = 2"
    using connectionSteps_shortPair [of "1 - 16 / 150"] by (simp add: connectionSteps_def)
  have "map atX (fst (renderConnection [] shortPair halfRandom 0 (firstPair (1 - 16 / 150)))) = [8]"
    unfolding renderConnection_def Let_def s
    by (simp add: shortPair_def firstPair_def nodeAt_def upto_rec1)
  moreover from this
  have "length (map atX (fst (renderConnection [] shortPair halfRandom 0
                                (firstPair (1 - 16 / 150))))) = length [8 :: real]"
    by (rule arg_cong)
  ultimately show ?thesis
    by (auto simp: connectionSteps_shortPair)
qed

theorem renderConnection_glyphs_witness:
  "connectionSteps tinyPair (firstPair (1 - 10 / 150)) < 2
   \<and> fst (renderConnection [] tinyPair halfRandom 0 (firstPair (1 - 10 / 150))) = []
   \<and> 2 \<le> connectionSteps shortPair (firstPair (1 - 16 / 150))
   \<and> length (fst (renderConnection [] shortPair halfRandom 0 (firstPair (1 - 16 / 150)))) = 1
   \<and> atX (fst (renderConnection [] shortPair halfRandom 0 (firstPair (1 - 16 / 150))) ! 0) = 8
   \<and> atY (fst (renderConnection [] shortPair halfRandom 0 (firstPair (1 - 16 / 150))) ! 0) = 0
   \<and> fillStyle (fst (renderConnection [] shortPair halfRandom 0 (firstPair (1 - 16 / 150))) ! 0)
       = (169, 169, 169, (1 - 16 / 150) * (4 / 10))"
proof -
  let ?D = "fst (renderConnection [] shortPair halfRandom 0 (firstPair (1 - 16 / 150)))"
  note t1 = renderConnection_glyphs [where ns = tinyPair and c = "firstPair (1 - 10 / 150)"
      and f = "[]" and rnd = halfRandom and k = 0 and i = 1]
  note t2 = renderConnection_glyphs [where ns = shortPair and c = "firstPair (1 - 16 / 150)"
      and f = "[]" and rnd = halfRandom and k = 0 and i = 1]
  have g: "\<lfloor>80 + (1 - 16 / 150) * (1 / 2) * (1 - 1 / 2) * 4 * (100 :: real)\<rfloor> = 169"
    by (rule floor_unique) simp_all
  from t1 have a: "fst (renderConnection [] tinyPair halfRandom 0 (firstPair (1 - 10 / 150))) = []"
    by (simp add: connectionSteps_tinyPair)
  from t2 have b: "length ?D = 1"
    by (simp add: connectionSteps_shortPair)
  from t2 have "?D ! nat (1 - 1)
      = \<lparr>glyph = randomNoiseChar (halfRandom (0 + nat (1 - 1))),
         atX = x (shortPair ! nodeA (firstPair (1 - 16 / 150)))
               + (x (shortPair ! nodeB (firstPair (1 - 16 / 150)))
                  - x (shortPair ! nodeA (firstPair (1 - 16 / 150)))) / real_of_int 2
                 * real_of_int 1,
         atY = y (shortPair ! nodeA (firstPair (1 - 16 / 150)))
               + (y (shortPair ! nodeB (firstPair (1 - 16 / 150)))
                  - y (shortPair ! nodeA (firstPair (1 - 16 / 150)))) / real_of_int 2
                 * real_of_int 1,
         fillStyle =
           (let progress = real_of_int 1 / real_of_int 2;
                gray = \<lfloor>80 + (strength (firstPair (1 - 16 / 150)) * progress * (1 - progress) * 4) * 100\<rfloor>
            in (gray, gray, gray, strength (firstPair (1 - 16 / 150)) * (4 / 10))),
         font = []\<rparr>"
    unfolding connectionSteps_shortPair by simp
  then have c: "atX (?D ! 0) = 8" "atY (?D ! 0) = 0"
    "fillStyle (?D ! 0) = (169, 169, 169, (1 - 16 / 150) * (4 / 10))"
    using g by (simp_all add: shortPair_def firstPair_def nodeAt_def Let_def)
  from a b c show ?thesis
    by (simp add: connectionSteps_tinyPair connectionSteps_shortPair)
qed

section \<open>Positions\<close>

text \<open>
  Claim C10. \<open>clamp v lo hi\<close> is \<open>min (max v lo) hi\<close>, so with inverted bounds (\<open>hi < lo\<close>) it
  returns \<open>hi\<close> whatever \<open>v\<close> is; hence \<^verbatim>\<open>repositionNodes\<close>, which clamps to
  \<open>[0, canvasSize - 50]\<close>, gives every node the negative coordinate \<open>canvasSize - 50\<close> on an
  axis where the canvas measures less than 50 pixels.
\<close>

theorem clamp_inverted_bounds:
  "clamp v lo hi = min (max v lo) hi
   \<and> (hi < lo \<longrightarrow> clamp v lo hi = hi)
   \<and> (w < 50 \<longrightarrow>
        (\<forall>node \<in> set (repositionNodes w h ns).
           x node = w - 50 \<and> x node < 0))
   \<and> (h < 50 \<longrightarrow>
        (\<forall>node \<in> set (repositionNodes w h ns).
           y node = h - 50 \<and> y node < 0))"
  by (auto simp: clamp_def repositionNodes_def Let_def)

theorem clamp_inverted_bounds_witness:
  "(40::real) < 50 \<and> (- 10::real) < 0
   \<and> clamp 10 0 (- 10) = - 10
   \<and> map x (repositionNodes 40 40 twoNodes) = [- 10, - 10]
   \<and> map y (repositionNodes 40 40 twoNodes) = [- 10, - 10]"
  using clamp_inverted_bounds [of 10 0 "- 10" 40 40 twoNodes]
  by (simp add: repositionNodes_def twoNodes_def)

text \<open>
  Claim C2. A node inside \<open>[0, canvasWidth] \<times> [0, canvasHeight]\<close> is meant to stay inside
  under the per-frame update and under the reposition after a resize. The per-frame update
  keeps it inside (\<open>updateNodes_within\<close>), and so does \<^verbatim>\<open>repositionNodes\<close> on a canvas of at
  least 50 by 50 pixels (\<open>repositionNodes_within\<close>). On a canvas of 40 by 40 pixels the node
  at \<open>(10, 10)\<close> is inside before the reposition and at \<open>(-10, -10)\<close> after it.
\<close>

theorem repositionNodes_leaves_canvas:
  "withinCanvas 40 40 (nodeAt 10 10 0 0)
   \<and> repositionNodes 40 40 [nodeAt 10 10 0 0] = [nodeAt (- 10) (- 10) 0 0]
   \<and> \<not> withinCanvas 40 40 (hd (repositionNodes 40 40 [nodeAt 10 10 0 0]))"
  by (simp add: repositionNodes_def withinCanvas_def nodeAt_def clamp_def Let_def)

text \<open>
  Claim C4, as amended. The claim says that a time delta \<open>\<le> 0\<close> is clamped to zero so that
  no position changes. There is no such clamp. With \<open>deltaTime = 0\<close> a node inside the canvas
  keeps its position; with any other \<open>deltaTime\<close>, negative ones included, a node that is not
  dragged and whose integrated coordinate \<open>x + vx * deltaTime * 0.02\<close> (or
  \<open>y + vy * deltaTime * 0.02\<close>) stays strictly between the walls ends at exactly that
  coordinate.
\<close>

theorem zero_deltaTime_keeps_positions:
  assumes "i < length ns"
  shows "(withinCanvas W H (ns ! i) \<longrightarrow>
            x (fst (updateNodes W H 0 now rnd k ns) ! i) = x (ns ! i)
          \<and> y (fst (updateNodes W H 0 now rnd k ns) ! i) = y (ns ! i))
       \<and> (\<not> Node.isDragging (ns ! i)
          \<and> 0 < x (ns ! i) + vx (ns ! i) * dt * MOVEMENT_SPEED
          \<and> x (ns ! i) + vx (ns ! i) * dt * MOVEMENT_SPEED < W \<longrightarrow>
            x (fst (updateNodes W H dt now rnd k ns) ! i)
              = x (ns ! i) + vx (ns ! i) * dt * MOVEMENT_SPEED)
       \<and> (\<not> Node.isDragging (ns ! i)
          \<and> 0 < y (ns ! i) + vy (ns ! i) * dt * MOVEMENT_SPEED
          \<and> y (ns ! i) + vy (ns ! i) * dt * MOVEMENT_SPEED < H \<longrightarrow>
            y (fst (updateNodes W H dt now rnd k ns) ! i)
              = y (ns ! i) + vy (ns ! i) * dt * MOVEMENT_SPEED)"
proof (intro conjI impI)
  assume w: "withinCanvas W H (ns ! i)"
  from updateNodes_nth [OF assms, of W H 0 now rnd k]
  obtain k' where "fst (updateNodes W H 0 now rnd k ns) ! i
                     = fst (updateNode W H 0 now rnd k' (ns ! i))" ..
  with bounceOffEdges_position_within [OF w]
  show "x (fst (updateNodes W H 0 now rnd k ns) ! i) = x (ns ! i)"
    and "y (fst (updateNodes W H 0 now rnd k ns) ! i) = y (ns ! i)"
    by (simp_all add: updateNode_position updatePosition_zero)
next
  assume f: "\<not> Node.isDragging (ns ! i)
          \<and> 0 < x (ns ! i) + vx (ns ! i) * dt * MOVEMENT_SPEED
          \<and> x (ns ! i) + vx (ns ! i) * dt * MOVEMENT_SPEED < W"
  from updateNodes_nth [OF assms, of W H dt now rnd k]
  obtain k' where "fst (updateNodes W H dt now rnd k ns) ! i
                     = fst (updateNode W H dt now rnd k' (ns ! i))" ..
  with f show "x (fst (updateNodes W H dt now rnd k ns) ! i)
              = x (ns ! i) + vx (ns ! i) * dt * MOVEMENT_SPEED"
    by (simp add: updateNode_position bounceOffEdges_x_inside updatePosition_x)
next
  assume f: "\<not> Node.isDragging (ns ! i)
          \<and> 0 < y (ns ! i) + vy (ns ! i) * dt * MOVEMENT_SPEED
          \<and> y (ns ! i) + vy (ns ! i) * dt * MOVEMENT_SPEED < H"
  from updateNodes_nth [OF assms, of W H dt now rnd k]
  obtain k' where "fst (updateNodes W H dt now rnd k ns) ! i
                     = fst (updateNode W H dt now rnd k' (ns ! i))" ..
  with f show "y (fst (updateNodes W H dt now rnd k ns) ! i)
              = y (ns ! i) + vy (ns ! i) * dt * MOVEMENT_SPEED"
    by (simp add: updateNode_position bounceOffEdges_y_inside updatePosition_y)
qed

text \<open>
  The claim as stated fails: with \<open>deltaTime = -100\<close> the node at \<open>x = 100\<close> with \<open>vx = 0.5\<close> is
  moved back to \<open>x = 99\<close>.
\<close>

theorem negative_deltaTime_moves_node:
  "(- 100 :: real) \<le> 0
   \<and> x (movingNode) = 100
   \<and> x (fst (updateNodes 800 600 (- 100) 0 halfRandom 0 [movingNode]) ! 0) = 99"
  unfolding updateNodes_movingNode_back by (simp add: movingNode_def nodeAt_def)

theorem zero_deltaTime_keeps_positions_witness:
  "(0::nat) < length [movingNode] \<and> withinCanvas 800 600 ([movingNode] ! 0)
   \<and> x (fst (updateNodes 800 600 0 0 halfRandom 0 [movingNode]) ! 0) = 100
   \<and> y (fst (updateNodes 800 600 0 0 halfRandom 0 [movingNode]) ! 0) = 100
   \<and> \<not> Node.isDragging ([movingNode] ! 0)
   \<and> x ([movingNode] ! 0) + vx ([movingNode] ! 0) * (- 100) * MOVEMENT_SPEED = 99
   \<and> x (fst (updateNodes 800 600 (- 100) 0 halfRandom 0 [movingNode]) ! 0) = 99"
proof -
  have l: "(0::nat) < length [movingNode]" by simp
  have w: "withinCanvas 800 600 ([movingNode] ! 0)"
    by (simp add: withinCanvas_def movingNode_def nodeAt_def)
  have d: "\<not> Node.isDragging ([movingNode] ! 0)"
    "x ([movingNode] ! 0) = 100" "y ([movingNode] ! 0) = 100"
    "x ([movingNode] ! 0) + vx ([movingNode] ! 0) * (- 100) * MOVEMENT_SPEED = 99"
    by (simp_all add: movingNode_def nodeAt_def MOVEMENT_SPEED_def)
  from zero_deltaTime_keeps_positions [OF l, of 800 600 0 halfRandom 0 "- 100"] w d l
  show ?thesis by simp
qed

section \<open>Velocities\<close>

text \<open>
  Claim C3. If every node obeys \<open>|vx| \<le> maxVelocity\<close> and \<open>|vy| \<le> maxVelocity\<close> before a
  per-frame update, every node obeys it after the update, whether or not the direction
  perturbation (the only place that clamps) ran. The other paths keep the bound as well:
  from the freshly initialised node list, after any sequence of pointer, touch, resize,
  scroll and frame events every node obeys the bound.
\<close>

theorem velocity_bound_preserved:
  "((\<forall>node \<in> set ns. velocityBounded node) \<longrightarrow>
      (\<forall>node \<in> set (fst (updateNodes W H dt now rnd k ns)). velocityBounded node))
   \<and> (unitRandom rnd \<longrightarrow>
      (\<forall>node \<in> set (nodes (animation (run rnd es (loadPage W H nodeCount m rnd)))).
         velocityBounded node))"
proof (intro conjI impI)
  assume "\<forall>node \<in> set ns. velocityBounded node"
  then show "\<forall>node \<in> set (fst (updateNodes W H dt now rnd k ns)). velocityBounded node"
    by (intro updateNodes_pointwise) (simp_all add: updateNode_velocityBounded)
next
  assume r: "unitRandom rnd"
  have "\<forall>node \<in> set (nodes (animation (loadPage W H nodeCount m rnd))). velocityInvariant node"
    using initializeNodes_velocityInvariant [OF r, of W H 0 nodeCount]
    by (simp add: loadPage_def case_prod_beta)
  from run_velocityInvariant [OF r this]
  show "\<forall>node \<in> set (nodes (animation (run rnd es (loadPage W H nodeCount m rnd)))).
         velocityBounded node"
    by (simp add: velocityInvariant_bounded)
qed

text \<open>
  A node at the limit whose perturbation would overshoot (\<open>vx = -0.8\<close> nudged by \<open>-0.05\<close>) is
  clamped back to \<open>-0.8\<close>; a freshly initialised node obeys the bound.
\<close>

theorem velocity_bound_preserved_witness:
  "velocityBounded fastNode \<and> unitRandom zeroRandom
   \<and> velocityBounded (nodeAt (10 - 256 / 1000) (10 + 256 / 1000) (- (8 / 10)) (3 / 4))
   \<and> velocityBounded (hd (nodes (animation (run zeroRandom [] (loadPage 800 600 1 150 zeroRandom)))))"
proof -
  have b: "\<forall>node \<in> set [fastNode]. velocityBounded node"
    by (simp add: fastNode_def nodeAt_def velocityBounded_def MAX_VELOCITY_def)
  have n: "nodes (animation (loadPage 800 600 1 150 zeroRandom))
             = [fst (initializeNode 800 600 zeroRandom 0)]"
    by (simp add: loadPage_def case_prod_beta)
  note t = velocity_bound_preserved [of "[fastNode]" 800 600 16 0 zeroRandom 0 "[]" 1 150]
  from t b have "\<forall>node \<in> set (fst (updateNodes 800 600 16 0 zeroRandom 0 [fastNode])).
                  velocityBounded node"
    by blast
  then have u: "velocityBounded (nodeAt (10 - 256 / 1000) (10 + 256 / 1000) (- (8 / 10)) (3 / 4))"
    unfolding updateNodes_fastNode by simp
  from t unitRandom_zeroRandom
  have "\<forall>node \<in> set (nodes (animation (run zeroRandom [] (loadPage 800 600 1 150 zeroRandom)))).
          velocityBounded node"
    by blast
  then have "velocityBounded (hd (nodes (animation (run zeroRandom []
               (loadPage 800 600 1 150 zeroRandom)))))"
    unfolding run.simps n by simp
  with b u unitRandom_zeroRandom show ?thesis by simp
qed

section \<open>Dragging\<close>

text \<open>
  Claim C5. At most one node is meant to have \<open>isDragging = true\<close> at any time, under every
  interleaving of the press and release handlers. A press handler never looks at a drag
  in progress: after a mouse-down on the first node and a touch-start on the second, both
  nodes are flagged, and after touch-end and mouse-up the first node is still flagged
  (the release handlers clear only \<^verbatim>\<open>this.draggedNode\<close>).
\<close>

theorem two_nodes_dragging:
  "draggedNodeCount (animation (run halfRandom [MouseDown 0 0, TouchStart [(100, 0)]]
                                   (idlePage twoNodes))) = 2
   \<and> draggedNodeCount (animation (run halfRandom
                                   [MouseDown 0 0, TouchStart [(100, 0)], TouchEnd, MouseUp]
                                   (idlePage twoNodes))) = 1"
  by (simp add: draggedNodeCount_def idlePage_def idleAnimation_def twoNodes_def
      handleMouseDown_def handleTouchStart_def handleTouchEnd_def handleMouseUp_def
      releaseDraggedNode_def restoreOrRandom_def findNodeAtPosition_def nodeAt_def
      sqrt_le_iff_sq Let_def)

text \<open>
  Claim C6. Pressing on a node (mouse-down or touch-start at a position where
  \<^verbatim>\<open>findNodeAtPosition\<close> finds it) and releasing (mouse-up, mouse-leave or touch-end) with
  no move in between, only frames and scroll samples, leaves the node's position
  unchanged; each velocity component is the one before the press when that was not zero,
  else a fresh random one; so a velocity that was not \<open>(0, 0)\<close> before the press is not
  \<open>(0, 0)\<close> after the release.
\<close>

theorem press_release_roundtrip:
  assumes "findNodeAtPosition (nodes (animation p)) px py = Some i"
    and "press \<in> {MouseDown px py, TouchStart [(px, py)]}"
    and "\<forall>e \<in> set es. tick e"
    and "release \<in> {MouseUp, MouseLeave, TouchEnd}"
    and "node = nodes (animation p) ! i"
    and "node' = nodes (animation (run rnd (press # es @ [release]) p)) ! i"
    and "k = randomCalls (run rnd (press # es) p)"
  shows "x node' = x node \<and> y node' = y node
       \<and> vx node' = (if vx node \<noteq> 0 then vx node else (rnd k - 1 / 2) * (1 / 2))
       \<and> vy node' = (if vy node \<noteq> 0 then vy node
                      else (rnd (if vx node \<noteq> 0 then k else k + 1) - 1 / 2) * (1 / 2))
       \<and> ((vx node, vy node) \<noteq> (0, 0) \<longrightarrow> (vx node', vy node') \<noteq> (0, 0))
       \<and> \<not> Node.isDragging node'"
proof -
  let ?p1 = "dispatch rnd press p"
  let ?p2 = "run rnd es ?p1"
  have "holds i node (animation ?p1)"
    unfolding assms(5) using assms(1,2) by (rule dispatch_press)
  with assms(3) have "holds i node (animation ?p2)" by (rule run_tick_holds)
  then have "motion (nodes (fst (releaseDraggedNode (animation ?p2) rnd (randomCalls ?p2))) ! i)
               = motion (released rnd (randomCalls ?p2) (pressed node))"
    by (rule release_holds)
  moreover have "run rnd (press # es @ [release]) p = dispatch rnd release ?p2"
    by (simp add: run_append)
  moreover have "k = randomCalls ?p2" by (simp add: assms(7))
  ultimately have "motion node' = motion (released rnd k (pressed node))"
    by (simp add: assms(6) dispatch_release [OF assms(4)])
  then show ?thesis
    by (simp add: motion_def released_pressed)
qed

theorem press_release_roundtrip_witness:
  "findNodeAtPosition (nodes (animation (idlePage twoNodes))) 100 0 = Some 1
   \<and> tick (Frame 16 0) \<and> tick (Scroll 30)
   \<and> x (nodes (animation (run halfRandom [MouseDown 100 0, Frame 16 0, Scroll 30, TouchEnd]
                              (idlePage twoNodes))) ! 1) = 100
   \<and> y (nodes (animation (run halfRandom [MouseDown 100 0, Frame 16 0, Scroll 30, TouchEnd]
                              (idlePage twoNodes))) ! 1) = 0
   \<and> vx (nodes (animation (run halfRandom [MouseDown 100 0, Frame 16 0, Scroll 30, TouchEnd]
                               (idlePage twoNodes))) ! 1) = 1 / 10
   \<and> vy (nodes (animation (run halfRandom [MouseDown 100 0, Frame 16 0, Scroll 30, TouchEnd]
                               (idlePage twoNodes))) ! 1) = 0
   \<and> \<not> Node.isDragging
         (nodes (animation (run halfRandom [MouseDown 100 0, Frame 16 0, Scroll 30, TouchEnd]
                              (idlePage twoNodes))) ! 1)"
proof -
  let ?es = "[Frame 16 0, Scroll 30]"
  have n: "nodes (animation (idlePage twoNodes)) ! 1 = nodeAt 100 0 (1 / 10) 0"
    by (simp add: idlePage_def idleAnimation_def twoNodes_def)
  have p: "MouseDown 100 0 \<in> {MouseDown 100 0, TouchStart [(100, 0)]}"
    and t: "\<forall>e \<in> set ?es. tick e"
    and r: "TouchEnd \<in> {MouseUp, MouseLeave, TouchEnd}"
    by simp_all
  from press_release_roundtrip [OF findNode_idlePage p t r n [symmetric] refl refl, of halfRandom]
    findNode_idlePage
  show ?thesis
    by (simp add: nodeAt_def halfRandom_def)
qed

section \<open>Frame skipping\<close>

text \<open>
  Claim C7. The scroll handler sets the scroll velocity to the distance scrolled since the
  last sample and the frame-skip threshold to 4 when that velocity exceeds 20, to 2 when
  it exceeds 5 but not 20, and to 1 otherwise; the threshold is monotone in the velocity.
\<close>

theorem frameSkipMax_step_function:
  "scrollVelocity (handleScroll s currentScrollY) = \<bar>currentScrollY - lastScrollY s\<bar>
   \<and> (\<bar>currentScrollY - lastScrollY s\<bar> > 20 \<longrightarrow> frameSkipMax (handleScroll s currentScrollY) = 4)
   \<and> (5 < \<bar>currentScrollY - lastScrollY s\<bar> \<and> \<bar>currentScrollY - lastScrollY s\<bar> \<le> 20
        \<longrightarrow> frameSkipMax (handleScroll s currentScrollY) = 2)
   \<and> (\<bar>currentScrollY - lastScrollY s\<bar> \<le> 5 \<longrightarrow> frameSkipMax (handleScroll s currentScrollY) = 1)
   \<and> (\<bar>currentScrollY - lastScrollY s\<bar> \<le> \<bar>otherScrollY - lastScrollY s'\<bar>
        \<longrightarrow> frameSkipMax (handleScroll s currentScrollY)
              \<le> frameSkipMax (handleScroll s' otherScrollY))"
  by (simp add: handleScroll_def Let_def FRAME_SKIP_THRESHOLD_def)

theorem frameSkipMax_step_function_witness:
  "scrollVelocity (handleScroll (idleAnimation []) 30) = 30
   \<and> frameSkipMax (handleScroll (idleAnimation []) 30) = 4
   \<and> frameSkipMax (handleScroll (idleAnimation []) 20) = 2
   \<and> frameSkipMax (handleScroll (idleAnimation []) 5) = 1
   \<and> frameSkipMax (handleScroll (handleScroll (idleAnimation []) 100) 106) = 2"
proof -
  have l: "lastScrollY (idleAnimation []) = 0" "lastScrollY (handleScroll (idleAnimation []) 100) = 100"
    by (simp_all add: idleAnimation_def handleScroll_def Let_def)
  from frameSkipMax_step_function [of "idleAnimation []" 30]
    frameSkipMax_step_function [of "idleAnimation []" 20]
    frameSkipMax_step_function [of "idleAnimation []" 5]
    frameSkipMax_step_function [of "handleScroll (idleAnimation []) 100" 106]
  show ?thesis unfolding l by simp
qed

section \<open>Destroying the frame manager\<close>

text \<open>
  Claim C8. Once the manager is destroyed no callback fires any more. For a manager in any
  state reached from a new one by manager calls and browser frames: \<^verbatim>\<open>destroy\<close> leaves no
  callback of the manager in the browser's list; whatever happens afterwards, the log of
  callbacks that ran never grows, every \<^verbatim>\<open>requestFrame\<close> returns 0 and changes nothing, and
  the browser's list stays empty. When a callback itself destroys the manager in the middle
  of a frame, the callbacks still waiting in that frame do not run either.
\<close>

theorem no_frames_after_destroy:
  "frameCallbacks (destroy (fold (frameStep program) before newManager)) = []
   \<and> fired (fold (frameStep program) after
              (destroy (fold (frameStep program) before newManager)))
       = fired (fold (frameStep program) before newManager)
   \<and> requestFrame (fold (frameStep program) after
                     (destroy (fold (frameStep program) before newManager))) callback
       = (fold (frameStep program) after
            (destroy (fold (frameStep program) before newManager)), 0)
   \<and> frameCallbacks (fold (frameStep program) after
                       (destroy (fold (frameStep program) before newManager))) = []
   \<and> (Destroy \<in> set (program callback timestamp) \<and> \<not> isDestroyed w
        \<and> handle \<in> fst ` set (frameCallbacks w)
        \<longrightarrow> fired (runCallbacks program timestamp ((handle, callback) # rest) w)
              = fired w @ [(callback, timestamp)])"
proof -
  let ?w0 = "fold (frameStep program) before newManager"
  let ?w1 = "destroy ?w0"
  let ?w2 = "fold (frameStep program) after ?w1"
  have "tracked ?w0" by (rule fold_frameStep_tracked [OF tracked_newManager])
  then have e: "frameCallbacks ?w1 = []" by (simp add: destroy_tracked_empty)
  have d: "isDestroyed ?w1" and f: "fired ?w1 = fired ?w0"
    by (simp_all add: destroy_destroyed)
  from fold_frameStep_destroyed [OF d, of program after] f
  have d2: "isDestroyed ?w2" and f2: "fired ?w2 = fired ?w0" by simp_all
  from d2 have r: "requestFrame ?w2 callback = (?w2, 0)" by (simp add: requestFrame_def)
  from d e have "quiet ?w1" by (simp add: quiet_def)
  then have "quiet ?w2" by (rule fold_frameStep_quiet)
  then have e2: "frameCallbacks ?w2 = []" by (simp add: quiet_def)
  have b: "fired (runCallbacks program timestamp ((handle, callback) # rest) w)
             = fired w @ [(callback, timestamp)]"
    if h: "Destroy \<in> set (program callback timestamp) \<and> \<not> isDestroyed w
           \<and> handle \<in> fst ` set (frameCallbacks w)"
  proof -
    let ?v = "frameWrapper program handle callback timestamp (cancelAnimationFrame w handle)"
    from h have "isDestroyed ?v"
      by (simp add: frameWrapper_def cancelAnimationFrame_def fold_perform_Destroy)
    from runCallbacks_destroyed [OF this, of program timestamp rest]
    have "fired (runCallbacks program timestamp rest ?v) = fired ?v" by simp
    moreover from h have "fired ?v = fired w @ [(callback, timestamp)]"
      by (simp add: frameWrapper_def cancelAnimationFrame_def fold_perform_fired)
    ultimately show ?thesis using h by simp
  qed
  from e f2 r e2 b show ?thesis by blast
qed

text \<open>
  Two callbacks are pending and the first destroys the manager when it runs: in the next
  frame only the first runs. Destroyed before the frame, none runs.
\<close>

theorem no_frames_after_destroy_witness:
  "Destroy \<in> set (destroyingProgram 1 16) \<and> \<not> isDestroyed twoPending
   \<and> 1 \<in> fst ` set (frameCallbacks twoPending)
   \<and> fired (frameStep destroyingProgram (AnimationFrame 16) twoPending) = [(1, 16)]
   \<and> fired (fold (frameStep destroyingProgram) [AnimationFrame 16] (destroy twoPending)) = []"
proof -
  have h: "Destroy \<in> set (destroyingProgram 1 16)" "\<not> isDestroyed twoPending"
    "1 \<in> fst ` set (frameCallbacks twoPending)"
    by (simp_all add: destroyingProgram_def twoPending_eq)
  note t = no_frames_after_destroy [of destroyingProgram
      "[Call (RequestFrame 1), Call (RequestFrame 2)]" "[AnimationFrame 16]" 1 16
      twoPending 1 "[(2, 2)]"]
  from t h have "fired (runCallbacks destroyingProgram 16 [(1, 1), (2, 2)] twoPending)
                   = fired twoPending @ [(1, 16)]"
    by blast
  then have a: "fired (frameStep destroyingProgram (AnimationFrame 16) twoPending) = [(1, 16)]"
    by (simp add: twoPending_eq)
  from t have "fired (fold (frameStep destroyingProgram) [AnimationFrame 16] (destroy twoPending))
                 = fired twoPending"
    unfolding twoPending_def by blast
  then have "fired (fold (frameStep destroyingProgram) [AnimationFrame 16] (destroy twoPending)) = []"
    by (simp add: twoPending_eq)
  with h a show ?thesis by simp
qed

end
